theory Spec2Isabelle
  imports Complex_Main "HOL-Library.AList" "HOL-Library.Multiset"
begin

section \<open>Totoro plugger: data model\<close>

text \<open>
  A shallow embedding of \<^verbatim>\<open>Totoro/scheduler/plugger.py\<close>. Python objects that the
  module only reads (database rows, Totoro plates, the configuration) are records of
  the attributes the module reads; Python exceptions are values of \<open>error\<close> and a
  function that can raise returns \<open>error + 'a\<close>; the \<^verbatim>\<open>OrderedDict\<close> \<^verbatim>\<open>self.carts\<close>
  is an association list in insertion order (\<open>AList.update\<close> overwrites a key in
  place and appends a new one, \<open>AList.delete\<close> is \<^verbatim>\<open>pop\<close>); floats are reals.
\<close>

datatype error =
  TotoroError | TotoroPluggerError | KeyError | IndexError | AssertionError | AttributeError

text \<open>A past plugging of a plate: \<^verbatim>\<open>plugging.fscan_mjd\<close> and \<^verbatim>\<open>plugging.cartridge.number\<close>.\<close>

record plugging =
  fscan_mjd :: real
  cartridge_number :: int

text \<open>
  A plate, as the module reads it. The module reads plates both as plateDB rows and as
  \<^verbatim>\<open>Totoro.dbclasses.Plate\<close> objects built from them (\<^verbatim>\<open>Plate(plate)\<close>); one record
  stands for both. Each method of the plate class that the module calls is the field
  holding its result:
  \<^item> \<open>activeCartNumber\<close> is \<^verbatim>\<open>getActiveCartNumber()\<close>;
  \<^item> \<open>isReplug\<close> is \<^verbatim>\<open>hasattr(plate, 'isReplug') and plate.isReplug\<close>;
  \<^item> \<open>currentSurveyMode\<close> is \<^verbatim>\<open>None\<close> or the label of \<^verbatim>\<open>plate.currentSurveyMode\<close>;
  \<^item> \<open>completion\<close> is \<^verbatim>\<open>getPlateCompletion()\<close>, \<open>completionIncompleteSets\<close> is
    \<^verbatim>\<open>getPlateCompletion(includeIncompleteSets=True)\<close>, \<open>completionNoMock\<close> is
    \<^verbatim>\<open>getPlateCompletion(useMock=False)\<close>;
  \<^item> \<open>setStatuses\<close> is \<^verbatim>\<open>[ss.getStatus()[0] for ss in plate.sets]\<close>.
\<close>

record plate =
  plate_id :: int
  priority :: int
  isPlugged :: bool
  activeCartNumber :: int
  isReplug :: bool
  pluggings :: "plugging list"
  currentSurveyMode :: "string option"
  isComplete :: bool
  completion :: real
  completionIncompleteSets :: real
  completionNoMock :: real
  hasIncompleteSets :: bool
  setStatuses :: "string list"

text \<open>
  A row of \<^verbatim>\<open>plateDB.ActivePlugging\<close>: its primary key, \<^verbatim>\<open>plugging.cartridge.number\<close>
  and \<^verbatim>\<open>plugging.plate\<close>.
\<close>

record activePlugging =
  pk :: int
  ap_cartridge_number :: int
  ap_plate :: plate

text \<open>The keys of \<^verbatim>\<open>config\<close> that the module reads.\<close>

record config =
  mangaCarts :: "int list"
  offlineCarts :: "int list"
  apogeeCarts :: "int list"
  forcePlugPriority :: int
  noPlugPriority :: int

text \<open>
  The status tuple \<^verbatim>\<open>(cart_number, plate, status_number, status_code, completion)\<close>.
\<close>

type_synonym cartStatus = "int \<times> plate option \<times> int \<times> string \<times> real"

section \<open>Cart status\<close>

text \<open>
  \<^verbatim>\<open>cartStatusCodes\<close>; the module looks it up at the literal keys 0 to 4 and 10 only.
\<close>

definition cartStatusCodes :: "int \<Rightarrow> string" where
  "cartStatusCodes k =
     (if k = 0 then ''empty''
      else if k = 1 then ''noMaNGAplate''
      else if k = 2 then ''MaNGA_complete''
      else if k = 3 then ''MaNGA_noStarted''
      else if k = 4 then ''MaNGA_started''
      else ''unknown'')"

text \<open>\<^verbatim>\<open>replaceMsgs\<close>, looked up at a status code: a missing key raises \<^verbatim>\<open>KeyError\<close>.\<close>

definition replaceMsgs :: "int \<Rightarrow> string option" where
  "replaceMsgs k =
     (if k = 0 then Some ''empty cart''
      else if k = 1 then Some ''replacing non-MaNGA plate''
      else if k = 2 then Some ''replacing complete MaNGA plate''
      else if k = 3 then Some ''replacing non-started MaNGA plate''
      else if k = 4 then Some ''replacing started MaNGA plate''
      else if k = 10 then Some ''replacing plate with unknown status''
      else None)"

text \<open>Python's \<^verbatim>\<open>sub in s\<close> on strings.\<close>

fun isSubstring :: "string \<Rightarrow> string \<Rightarrow> bool" where
  "isSubstring sub [] = (sub = [])"
| "isSubstring sub (c # cs) = (take (length sub) (c # cs) = sub \<or> isSubstring sub cs)"

text \<open>
  \<^verbatim>\<open>getCartStatus(activePluggings, cartNumber)\<close>. The three cases of the list are
  \<^verbatim>\<open>len(...) == 0\<close>, the \<^verbatim>\<open>else\<close> branch (exactly one) and \<^verbatim>\<open>len(...) > 1\<close>. The final
  \<^verbatim>\<open>return\<close> of the source (status 10) follows an \<^verbatim>\<open>if/else\<close> that returns on both
  sides and is never reached.
\<close>

definition getCartStatus :: "activePlugging list \<Rightarrow> int \<Rightarrow> error + cartStatus" where
  "getCartStatus activePluggings cartNumber =
     (case filter (\<lambda>aP. ap_cartridge_number aP = cartNumber) activePluggings of
        [] \<Rightarrow> Inr (cartNumber, None, 0, cartStatusCodes 0, 0)
      | [cartActivePlugging] \<Rightarrow>
          (let plate = ap_plate cartActivePlugging;
               isMaNGAPlate = (case currentSurveyMode plate of
                                 None \<Rightarrow> False
                               | Some label \<Rightarrow> isSubstring ''MaNGA'' label)
           in if \<not> isMaNGAPlate then Inr (cartNumber, Some plate, 1, cartStatusCodes 1, 0)
              else if isComplete plate then Inr (cartNumber, Some plate, 2, cartStatusCodes 2, 1)
              else if completion plate = 0
                then Inr (cartNumber, Some plate, 3, cartStatusCodes 3, 0)
              else Inr (cartNumber, Some plate, 4, cartStatusCodes 4, completion plate))
      | _ # _ # _ \<Rightarrow> Inl TotoroError)"

text \<open>\<^verbatim>\<open>getCartPlate\<close>: the plate of the first active plugging of the cart.\<close>

fun getCartPlate :: "activePlugging list \<Rightarrow> int \<Rightarrow> plate option" where
  "getCartPlate [] cartNumber = None"
| "getCartPlate (aP # activePluggings) cartNumber =
     (if ap_cartridge_number aP = cartNumber then Some (ap_plate aP)
      else getCartPlate activePluggings cartNumber)"

text \<open>
  \<^verbatim>\<open>np.argmax\<close> on a non-empty list: the index of the first occurrence of the maximum.
  \<open>argmaxFrom best i j xs\<close> scans \<open>xs\<close>, whose head has index \<open>j\<close>, with the largest
  value so far \<open>best\<close> at index \<open>i\<close>.
\<close>

fun argmaxFrom :: "real \<Rightarrow> nat \<Rightarrow> nat \<Rightarrow> real list \<Rightarrow> nat" where
  "argmaxFrom best i j [] = i"
| "argmaxFrom best i j (x # xs) =
     (if best < x then argmaxFrom x j (Suc j) xs else argmaxFrom best i (Suc j) xs)"

definition argmax :: "real list \<Rightarrow> nat" where
  "argmax xs = (case xs of [] \<Rightarrow> 0 | x # rest \<Rightarrow> argmaxFrom x 0 1 rest)"

text \<open>\<^verbatim>\<open>getCartForReplug(plate)\<close>: the cart of the last plugging, or \<^verbatim>\<open>None\<close>.\<close>

definition getCartForReplug :: "plate \<Rightarrow> int option" where
  "getCartForReplug plate =
     (if length (pluggings plate) = 0 then None
      else (let scanMJDs = map fscan_mjd (pluggings plate)
            in Some (cartridge_number (pluggings plate ! argmax scanMJDs))))"

section \<open>Cart priorities\<close>

text \<open>The six intermediate lists of \<^verbatim>\<open>prioritiseCarts\<close>.\<close>

record buckets =
  b_empty :: "cartStatus list"
  b_noMaNGA :: "cartStatus list"
  b_complete :: "cartStatus list"
  b_noStarted :: "cartStatus list"
  b_unknown :: "cartStatus list"
  b_started :: "cartStatus list"

definition statusLabelOf :: "cartStatus \<Rightarrow> string" where
  "statusLabelOf cart = (case cart of (n, p, code, label, c) \<Rightarrow> label)"

definition completionOf :: "cartStatus \<Rightarrow> real" where
  "completionOf cart = (case cart of (n, p, code, label, c) \<Rightarrow> c)"

text \<open>One round of the loop \<^verbatim>\<open>for cart in cartStatus\<close>: the \<^verbatim>\<open>if/elif\<close> chain.\<close>

definition assignCart :: "cartStatus \<Rightarrow> buckets \<Rightarrow> buckets" where
  "assignCart cart b =
     (let statusLabel = statusLabelOf cart
      in if statusLabel = ''empty'' then b\<lparr>b_empty := b_empty b @ [cart]\<rparr>
         else if statusLabel = ''noMaNGAplate'' then b\<lparr>b_noMaNGA := b_noMaNGA b @ [cart]\<rparr>
         else if statusLabel = ''MaNGA_complete'' then b\<lparr>b_complete := b_complete b @ [cart]\<rparr>
         else if statusLabel = ''MaNGA_noStarted''
           then b\<lparr>b_noStarted := b_noStarted b @ [cart]\<rparr>
         else if statusLabel = ''unknown'' then b\<lparr>b_unknown := b_unknown b @ [cart]\<rparr>
         else if statusLabel = ''MaNGA_started'' then b\<lparr>b_started := b_started b @ [cart]\<rparr>
         else b)"

text \<open>
  \<^verbatim>\<open>prioritiseCarts(cartStatus, activePluggings)\<close>. Python's \<^verbatim>\<open>sorted\<close> is stable, as
  \<open>sort_key\<close> is.
\<close>

definition prioritiseCarts :: "cartStatus list \<Rightarrow> activePlugging list \<Rightarrow> cartStatus list" where
  "prioritiseCarts cartStatus activePluggings =
     (let b = fold assignCart cartStatus
                \<lparr>b_empty = [], b_noMaNGA = [], b_complete = [], b_noStarted = [],
                 b_unknown = [], b_started = []\<rparr>;
          started = sort_key completionOf (b_started b)
      in b_empty b @ b_complete b @ b_unknown b @ b_noMaNGA b @ b_noStarted b @ started)"

text \<open>
  The order as the specification words it: the statuses with a given label, in their
  input order.
\<close>

definition withLabel :: "string \<Rightarrow> cartStatus list \<Rightarrow> cartStatus list" where
  "withLabel l cartStatus = filter (\<lambda>cart. statusLabelOf cart = l) cartStatus"

section \<open>Allocation of plates into carts\<close>

text \<open>
  The state that \<^verbatim>\<open>allocateCarts\<close> updates as it runs: \<^verbatim>\<open>self.carts\<close>, the
  \<^verbatim>\<open>OrderedDict\<close> \<^verbatim>\<open>cartStatus\<close>, the list \<^verbatim>\<open>allocatedPlates\<close> and the dictionary
  \<^verbatim>\<open>cartPlateMessage\<close>. A message is its text and, for a started plate that phase 3
  replaces, the completion that the source formats into the text.
\<close>

record alloc =
  a_carts :: "(int \<times> plate option) list"
  a_cartStatus :: "(int \<times> cartStatus) list"
  a_allocatedPlates :: "plate list"
  a_cartPlateMessage :: "(int \<times> plate option \<times> string \<times> real option) list"

text \<open>
  \<^verbatim>\<open>self.carts\<close> as \<^verbatim>\<open>_initFromDates\<close> builds it: the MaNGA carts that are not offline,
  each with \<^verbatim>\<open>None\<close>.
\<close>

definition initCarts :: "config \<Rightarrow> (int \<times> plate option) list" where
  "initCarts cfg =
     fold (\<lambda>key cs. AList.update key None cs)
       (filter (\<lambda>key. key \<notin> set (offlineCarts cfg)) (mangaCarts cfg)) []"

text \<open>
  The loop over the active pluggings at the start of \<^verbatim>\<open>allocateCarts\<close>:
  \<^verbatim>\<open>self.carts[activePlugging.pk] = None\<close> for each primary key that is an offline cart.
\<close>

definition resetOffline ::
    "config \<Rightarrow> activePlugging list \<Rightarrow> (int \<times> plate option) list \<Rightarrow> (int \<times> plate option) list"
  where
  "resetOffline cfg activePluggings cs =
     fold (\<lambda>aP cs. if pk aP \<in> set (offlineCarts cfg) then AList.update (pk aP) None cs else cs)
       activePluggings cs"

text \<open>
  The dictionary \<^verbatim>\<open>cartStatus\<close>: the status of each cart of \<^verbatim>\<open>self.carts\<close> whose value
  is \<^verbatim>\<open>None\<close>, in the order of \<^verbatim>\<open>self.carts\<close>; an error of \<^verbatim>\<open>getCartStatus\<close> ends the run.
\<close>

fun cartStatusOf ::
    "activePlugging list \<Rightarrow> (int \<times> plate option) list \<Rightarrow> error + (int \<times> cartStatus) list"
  where
  "cartStatusOf activePluggings [] = Inr []"
| "cartStatusOf activePluggings ((cartNumber, v) # rest) =
     (if v = None then
        (case getCartStatus activePluggings cartNumber of
           Inl e \<Rightarrow> Inl e
         | Inr s \<Rightarrow>
             (case cartStatusOf activePluggings rest of
                Inl e \<Rightarrow> Inl e
              | Inr ss \<Rightarrow> Inr ((cartNumber, s) # ss)))
      else cartStatusOf activePluggings rest)"

text \<open>
  Phase 1, \<^verbatim>\<open># Allocates plates that are already plugged\<close>. \<^verbatim>\<open>cartStatus.pop(cartNumber)\<close>
  raises \<^verbatim>\<open>KeyError\<close> when the cart is not a key of \<^verbatim>\<open>cartStatus\<close>.
\<close>

fun allocPlugged :: "plate list \<Rightarrow> alloc \<Rightarrow> error + alloc" where
  "allocPlugged [] st = Inr st"
| "allocPlugged (plate # plates) st =
     (if isPlugged plate then
        (let cartNumber = activeCartNumber plate
         in if cartNumber \<in> set (map fst (a_cartStatus st)) then
              allocPlugged plates
                (st\<lparr>a_carts := AList.update cartNumber (Some plate) (a_carts st),
                    a_cartPlateMessage :=
                      AList.update cartNumber (Some plate, ''already plugged'', None)
                        (a_cartPlateMessage st),
                    a_allocatedPlates := a_allocatedPlates st @ [plate],
                    a_cartStatus := AList.delete cartNumber (a_cartStatus st)\<rparr>)
            else Inl KeyError)
      else allocPlugged plates st)"

text \<open>
  Phase 2, \<^verbatim>\<open># Allocates replugs\<close>. The source reads \<^verbatim>\<open>cartStatus[cartNumber][2]\<close> before
  it tests \<^verbatim>\<open>cartNumber is not None and cartNumber not in config['offlineCarts']\<close>:
  the lookup raises \<^verbatim>\<open>KeyError\<close> when \<^verbatim>\<open>getCartForReplug\<close> returned \<^verbatim>\<open>None\<close> (never a key
  of \<^verbatim>\<open>cartStatus\<close>) and when the cart is not a key.
\<close>

fun allocReplugs :: "config \<Rightarrow> plate list \<Rightarrow> alloc \<Rightarrow> error + alloc" where
  "allocReplugs cfg [] st = Inr st"
| "allocReplugs cfg (plate # plates) st =
     (if plate \<in> set (a_allocatedPlates st) then allocReplugs cfg plates st
      else if isReplug plate then
        (case getCartForReplug plate of
           None \<Rightarrow> Inl KeyError
         | Some cartNumber \<Rightarrow>
             (case map_of (a_cartStatus st) cartNumber of
                None \<Rightarrow> Inl KeyError
              | Some (n, p, statusCode, statusLabel, c) \<Rightarrow>
                  if cartNumber \<notin> set (offlineCarts cfg) then
                    (case replaceMsgs statusCode of
                       None \<Rightarrow> Inl KeyError
                     | Some msg \<Rightarrow>
                         allocReplugs cfg plates
                           (st\<lparr>a_carts := AList.update cartNumber (Some plate) (a_carts st),
                               a_allocatedPlates := a_allocatedPlates st @ [plate],
                               a_cartPlateMessage :=
                                 AList.update cartNumber (Some plate, msg, None)
                                   (a_cartPlateMessage st),
                               a_cartStatus := AList.delete cartNumber (a_cartStatus st)\<rparr>))
                  else allocReplugs cfg plates st))
      else allocReplugs cfg plates st)"

text \<open>
  Phase 3, \<^verbatim>\<open># Allocates the remaining plates\<close>: each plate not yet allocated takes the
  first cart of \<^verbatim>\<open>sortedCarts\<close>; \<^verbatim>\<open>sortedCarts[0]\<close> on an empty list raises
  \<^verbatim>\<open>IndexError\<close>. The result holds the carts that are left.
\<close>

fun allocRemaining ::
    "plate list \<Rightarrow> cartStatus list \<Rightarrow> alloc \<Rightarrow> error + (alloc \<times> cartStatus list)" where
  "allocRemaining [] sortedCarts st = Inr (st, sortedCarts)"
| "allocRemaining (plate # plates) sortedCarts st =
     (if plate \<in> set (a_allocatedPlates st) then allocRemaining plates sortedCarts st
      else
        (case sortedCarts of
           [] \<Rightarrow> Inl IndexError
         | (cartNumber, cartPlate, statusCode, statusLabel, cmpl) # sortedCarts' \<Rightarrow>
             (case replaceMsgs statusCode of
                None \<Rightarrow> Inl KeyError
              | Some msg \<Rightarrow>
                  allocRemaining plates sortedCarts'
                    (st\<lparr>a_carts := AList.update cartNumber (Some plate) (a_carts st),
                        a_allocatedPlates := a_allocatedPlates st @ [plate],
                        a_cartPlateMessage :=
                          AList.update cartNumber
                            (if statusLabel = ''MaNGA_started''
                             then (Some plate, msg @ '', completion='', Some cmpl)
                             else (Some plate, msg, None))
                            (a_cartPlateMessage st)\<rparr>))))"

text \<open>
  \<^verbatim>\<open># Checks unassigned carts\<close>: a cart whose plate is complete is unplugged, a cart
  with another MaNGA plate keeps it, and nothing is done with the others.
\<close>

fun checkUnassigned :: "cartStatus list \<Rightarrow> alloc \<Rightarrow> alloc" where
  "checkUnassigned [] st = st"
| "checkUnassigned ((cartNumber, plate, statusCode, statusLabel, cmpl) # sortedCarts) st =
     (if cmpl \<ge> 1 then
        checkUnassigned sortedCarts
          (st\<lparr>a_cartPlateMessage :=
                AList.update cartNumber (plate, ''unplug'', None) (a_cartPlateMessage st)\<rparr>)
      else
        (case plate of
           Some p \<Rightarrow>
             if statusLabel \<noteq> ''noMaNGAplate'' then
               checkUnassigned sortedCarts
                 (st\<lparr>a_carts := AList.update cartNumber plate (a_carts st),
                     a_cartPlateMessage :=
                       AList.update cartNumber
                         (plate, if isPlugged p then ''already plugged'' else ''unchanged'', None)
                         (a_cartPlateMessage st)\<rparr>)
             else
               checkUnassigned sortedCarts
                 (st\<lparr>a_cartPlateMessage :=
                       AList.update cartNumber (plate, ''not doing anything'', None)
                         (a_cartPlateMessage st)\<rparr>)
         | None \<Rightarrow>
             checkUnassigned sortedCarts
               (st\<lparr>a_cartPlateMessage :=
                     AList.update cartNumber (plate, ''not doing anything'', None)
                       (a_cartPlateMessage st)\<rparr>)))"

text \<open>
  The plates that \<^verbatim>\<open>allocateCarts\<close> works on: the first \<^verbatim>\<open>len(self.carts)\<close> plates when
  there are more plates than carts.
\<close>

definition truncatePlates :: "(int \<times> plate option) list \<Rightarrow> plate list \<Rightarrow> plate list" where
  "truncatePlates cs plates =
     (if length plates > length cs then take (length cs) plates else plates)"

text \<open>
  \<^verbatim>\<open>allocateCarts\<close> up to the end of phase 2: the truncation of the plates, the offline
  carts of the active pluggings, the statuses, phases 1 and 2.
\<close>

definition allocPhases12 ::
    "config \<Rightarrow> activePlugging list \<Rightarrow> (int \<times> plate option) list \<Rightarrow> plate list \<Rightarrow> error + alloc"
  where
  "allocPhases12 cfg activePluggings cs plates0 =
     (let plates = truncatePlates cs plates0;
          cs1 = resetOffline cfg activePluggings cs
      in case cartStatusOf activePluggings cs1 of
           Inl e \<Rightarrow> Inl e
         | Inr cartStatus \<Rightarrow>
             (case allocPlugged plates
                     \<lparr>a_carts = cs1, a_cartStatus = cartStatus, a_allocatedPlates = [],
                      a_cartPlateMessage = []\<rparr> of
                Inl e \<Rightarrow> Inl e
              | Inr st1 \<Rightarrow> allocReplugs cfg plates st1))"

text \<open>The list \<^verbatim>\<open>sortedCarts\<close> that phase 3 starts from.\<close>

definition sortedCartsOf :: "activePlugging list \<Rightarrow> alloc \<Rightarrow> cartStatus list" where
  "sortedCartsOf activePluggings st =
     prioritiseCarts (map snd (a_cartStatus st)) activePluggings"

text \<open>
  \<^verbatim>\<open>allocateCarts\<close> up to the log of the allocation: the state after the check of the
  unassigned carts. The log itself (\<^verbatim>\<open>_logCartAllocation\<close>) writes to the logger only.
\<close>

definition allocate ::
    "config \<Rightarrow> activePlugging list \<Rightarrow> (int \<times> plate option) list \<Rightarrow> plate list \<Rightarrow> error + alloc"
  where
  "allocate cfg activePluggings cs plates0 =
     (case allocPhases12 cfg activePluggings cs plates0 of
        Inl e \<Rightarrow> Inl e
      | Inr st2 \<Rightarrow>
          (case allocRemaining (truncatePlates cs plates0)
                  (sortedCartsOf activePluggings st2) st2 of
             Inl e \<Rightarrow> Inl e
           | Inr (st3, sortedCarts) \<Rightarrow> Inr (checkUnassigned sortedCarts st3)))"

section \<open>The order of the carts\<close>

text \<open>
  The timeline (\<^verbatim>\<open>Totoro.scheduler.timeline.Timeline\<close>) as the module reads it:
  \<^verbatim>\<open>timeline.scheduled\<close> and \<^verbatim>\<open>timeline.remainingTime\<close>.
\<close>

record timeline =
  scheduled :: "plate list"
  remainingTime :: real

text \<open>
  A \<^verbatim>\<open>Plugger\<close> instance. The key \<^verbatim>\<open>'cart_order'\<close> that \<^verbatim>\<open>addCartOrder\<close> adds to
  \<^verbatim>\<open>self.carts\<close> is the field \<open>cart_order\<close> (\<open>None\<close> before \<^verbatim>\<open>addCartOrder\<close> has run), so
  that \<open>carts\<close> holds the carts only. \<^verbatim>\<open>_nNewExposures\<close> maps a \<^verbatim>\<open>plate_id\<close> to a count;
  it is \<open>None\<close> as long as the attribute is not set (\<^verbatim>\<open>_initFromDates\<close> does not set it,
  \<^verbatim>\<open>_initNoManga\<close> and \<^verbatim>\<open>schedule\<close> do).
\<close>

record plugger =
  startDate :: "real option"
  endDate :: "real option"
  plTimeline :: "timeline option"
  platesToSchedule :: "plate list"
  carts :: "(int \<times> plate option) list"
  cart_order :: "int list option"
  nNewExposures :: "(int \<times> nat) list option"

text \<open>The argument \<^verbatim>\<open>metric\<close>, which the source asserts to be one of two strings.\<close>

datatype metric = Scheduled | Completion

text \<open>
  \<^verbatim>\<open># Splits plates in the three priority categories\<close>: the lists \<^verbatim>\<open>completed\<close>,
  \<^verbatim>\<open>scheduled\<close> and \<^verbatim>\<open>forcePlug\<close> of \<^verbatim>\<open>addCartOrder\<close>, each in the order of \<^verbatim>\<open>self.carts\<close>.
\<close>

fun splitCarts ::
    "int \<Rightarrow> (int \<times> plate option) list \<Rightarrow>
     (int \<times> plate) list \<times> (int \<times> plate) list \<times> (int \<times> plate) list" where
  "splitCarts fpp [] = ([], [], [])"
| "splitCarts fpp ((cart, None) # rest) = splitCarts fpp rest"
| "splitCarts fpp ((cart, Some plate) # rest) =
     (case splitCarts fpp rest of
        (completed, sched, forcePlug) \<Rightarrow>
          if priority plate = fpp then (completed, sched, (cart, plate) # forcePlug)
          else if completionNoMock plate > 1 then ((cart, plate) # completed, sched, forcePlug)
          else (completed, (cart, plate) # sched, forcePlug))"

text \<open>
  \<^verbatim>\<open>np.argsort\<close>: the indices that sort the list in ascending order. Equal values keep
  their order here; numpy's default sort does so on the short lists of this module
  (it sorts fewer than 17 elements by insertion).
\<close>

definition argsort :: "('a::linorder) list \<Rightarrow> nat list" where
  "argsort xs = map snd (sort_key fst (zip xs [0..<length xs]))"

text \<open>Python's \<^verbatim>\<open>list.insert(i, x)\<close> for \<open>i\<close> up to the length of the list.\<close>

definition list_insert :: "nat \<Rightarrow> 'a \<Rightarrow> 'a list \<Rightarrow> 'a list" where
  "list_insert i x xs = take i xs @ [x] @ drop i xs"

text \<open>
  \<^verbatim>\<open>np.any([ss.getStatus()[0] == 'Incomplete' for ss in plate.sets])\<close>.
\<close>

definition anyIncomplete :: "plate \<Rightarrow> bool" where
  "anyIncomplete plate = (''Incomplete'' \<in> set (setStatuses plate))"

text \<open>
  The list \<^verbatim>\<open>orderedCarts\<close> of \<^verbatim>\<open>addCartOrder\<close>; an offline cart that no plate uses is
  the pair of the cart and \<^verbatim>\<open>None\<close>.
\<close>

definition orderedCarts ::
    "config \<Rightarrow> metric \<Rightarrow> (int \<times> nat) list \<Rightarrow> (int \<times> plate option) list \<Rightarrow>
     (int \<times> plate option) list" where
  "orderedCarts cfg metric nNew cs =
     (case splitCarts (forcePlugPriority cfg) cs of
        (completed, sched, forcePlug) \<Rightarrow>
          (case metric of
             Scheduled \<Rightarrow>
               (let nExposures =
                      map (\<lambda>(cart, plate).
                             case map_of nNew (plate_id plate) of Some n \<Rightarrow> n | None \<Rightarrow> 0)
                          sched;
                    scheduledOrdered = map (\<lambda>ii. sched ! ii) (argsort nExposures);
                    usedCarts = map fst (completed @ scheduledOrdered @ forcePlug);
                    offline = map (\<lambda>cart. (cart, None))
                                (filter (\<lambda>cart. cart \<notin> set usedCarts) (offlineCarts cfg))
                in map (\<lambda>(cart, plate). (cart, Some plate)) completed @ offline @
                   map (\<lambda>(cart, plate). (cart, Some plate)) scheduledOrdered @
                   map (\<lambda>(cart, plate). (cart, Some plate)) forcePlug)
           | Completion \<Rightarrow>
               (let platesWithIncompleteSets =
                      filter (\<lambda>(cart, plate). hasIncompleteSets plate) sched;
                    platesWithoutIncompleteSets =
                      filter (\<lambda>(cart, plate). \<not> hasIncompleteSets plate) sched;
                    completionWithIncompleteSets =
                      map (\<lambda>(cart, plate). completionIncompleteSets plate)
                        platesWithIncompleteSets;
                    completionWithoutIncompleteSets =
                      map (\<lambda>(cart, plate). completion plate) platesWithoutIncompleteSets;
                    scheduledOrdered =
                      map (\<lambda>ii. platesWithoutIncompleteSets ! ii)
                        (argsort completionWithoutIncompleteSets) @
                      map (\<lambda>jj. platesWithIncompleteSets ! jj)
                        (argsort completionWithIncompleteSets);
                    usedCarts = map fst (completed @ scheduledOrdered @ forcePlug);
                    ii = length (takeWhile (\<lambda>(cart, plate). \<not> anyIncomplete plate)
                                   scheduledOrdered);
                    withOffline =
                      fold (\<lambda>cart so. if cart \<in> set usedCarts then so
                                       else list_insert ii (cart, None) so)
                        (offlineCarts cfg)
                        (map (\<lambda>(cart, plate). (cart, Some plate)) scheduledOrdered)
                in map (\<lambda>(cart, plate). (cart, Some plate)) completed @ withOffline @
                   map (\<lambda>(cart, plate). (cart, Some plate)) forcePlug)))"

text \<open>The list \<^verbatim>\<open>[cart for cart, plate in orderedCarts]\<close>.\<close>

definition cartOrder ::
    "config \<Rightarrow> metric \<Rightarrow> (int \<times> nat) list \<Rightarrow> (int \<times> plate option) list \<Rightarrow> int list" where
  "cartOrder cfg metric nNew cs = map fst (orderedCarts cfg metric nNew cs)"

text \<open>
  \<^verbatim>\<open>addCartOrder(metric)\<close>: sets \<^verbatim>\<open>self.carts['cart_order']\<close>. The source reads
  \<^verbatim>\<open>self._nNewExposures\<close> once for each scheduled plate of the metric \<^verbatim>\<open>'scheduled'\<close>, and
  nowhere else: when the attribute is not set, that raises \<^verbatim>\<open>AttributeError\<close> if there is
  a scheduled plate, and the dictionary is not looked at otherwise.
\<close>

definition addCartOrder :: "config \<Rightarrow> metric \<Rightarrow> plugger \<Rightarrow> error + plugger" where
  "addCartOrder cfg metric pl =
     (case nNewExposures pl of
        Some nNew \<Rightarrow> Inr (pl\<lparr>cart_order := Some (cartOrder cfg metric nNew (carts pl))\<rparr>)
      | None \<Rightarrow>
          if metric = Scheduled \<and> fst (snd (splitCarts (forcePlugPriority cfg) (carts pl))) \<noteq> []
          then Inl AttributeError
          else Inr (pl\<lparr>cart_order := Some (cartOrder cfg metric [] (carts pl))\<rparr>))"

text \<open>
  \<^verbatim>\<open>allocateCarts(plates)\<close> on a plugger whose \<^verbatim>\<open>self.carts\<close> has no key \<^verbatim>\<open>'cart_order'\<close>
  yet, with the active pluggings that the database query returns.
\<close>

definition allocateCarts ::
    "config \<Rightarrow> activePlugging list \<Rightarrow> plugger \<Rightarrow> plate list \<Rightarrow> error + plugger" where
  "allocateCarts cfg activePluggings pl plates =
     (case allocate cfg activePluggings (carts pl) plates of
        Inl e \<Rightarrow> Inl e
      | Inr st \<Rightarrow> addCartOrder cfg Scheduled (pl\<lparr>carts := a_carts st\<rparr>))"

section \<open>Selection of the plates\<close>

text \<open>
  The second loop of \<^verbatim>\<open>selectPlates\<close>, \<^verbatim>\<open># Adds the remainder of the plates\<close>: the plates
  it appends, a started plate with \<^verbatim>\<open>isReplug\<close> set.
\<close>

fun selectRemainder :: "config \<Rightarrow> plate list \<Rightarrow> plate list" where
  "selectRemainder cfg [] = []"
| "selectRemainder cfg (plate # rest) =
     (if priority plate \<le> noPlugPriority cfg then selectRemainder cfg rest
      else if isComplete plate then selectRemainder cfg rest
      else (if completionIncompleteSets plate > 0 then plate\<lparr>isReplug := True\<rparr> else plate)
             # selectRemainder cfg rest)"

text \<open>
  \<^verbatim>\<open>selectPlates\<close> on the plates that \<^verbatim>\<open>dbclasses.getAtAPO\<close> returns.
\<close>

definition selectPlates :: "config \<Rightarrow> plate list \<Rightarrow> plate list" where
  "selectPlates cfg plates =
     (let prioPlug = forcePlugPriority cfg;
          platesToSchedule = filter (\<lambda>plate. priority plate = prioPlug \<or> isPlugged plate) plates
      in platesToSchedule @
         selectRemainder cfg (filter (\<lambda>plate. plate \<notin> set platesToSchedule) plates))"

section \<open>The plugger\<close>

text \<open>
  What the module gets from outside: the results of \<^verbatim>\<open>getPlugged\<close> and \<^verbatim>\<open>getAtAPO\<close>, of the
  query of the active pluggings (ordered by primary key) and of the query of
  \<^verbatim>\<open>_scheduleForced\<close>, the new \<^verbatim>\<open>Timeline\<close>, what \<^verbatim>\<open>Timeline.schedule\<close> makes of a timeline
  for a list of plates, and \<^verbatim>\<open>len(plate.getMockExposures())\<close>.
\<close>

record env =
  getPlugged :: "plate list"
  getAtAPO :: "plate list"
  queryActivePluggings :: "activePlugging list"
  queryForcePlug :: "plate list"
  newTimeline :: timeline
  timelineSchedule :: "plate list \<Rightarrow> timeline \<Rightarrow> timeline"
  nMockExposures :: "plate \<Rightarrow> nat"

text \<open>
  \<^verbatim>\<open>_initNoManga\<close> up to its call of \<^verbatim>\<open>addCartOrder\<close>: the carts of the plugged plates
  that are not complete, and the empty dictionary \<^verbatim>\<open>_nNewExposures\<close>.
\<close>

definition initNoMangaCarts :: "env \<Rightarrow> plugger" where
  "initNoMangaCarts ev =
     \<lparr>startDate = None, endDate = None, plTimeline = None, platesToSchedule = [],
      carts = fold (\<lambda>plate cs. if \<not> isComplete plate
                                 then AList.update (activeCartNumber plate) (Some plate) cs
                                 else cs)
                (getPlugged ev) [],
      cart_order = None, nNewExposures = Some []\<rparr>"

text \<open>
  \<^verbatim>\<open>_initNoManga\<close>: \<^verbatim>\<open>self.addCartOrder(metric='completion')\<close> on that plugger. Its
  \<^verbatim>\<open>_nNewExposures\<close> is set, so that \<^verbatim>\<open>addCartOrder\<close> does not raise and sets the order
  (lemma \<open>addCartOrder_initNoManga\<close> below).
\<close>

definition initNoManga :: "config \<Rightarrow> env \<Rightarrow> plugger" where
  "initNoManga cfg ev =
     (initNoMangaCarts ev)
       \<lparr>cart_order := Some (cartOrder cfg Completion [] (carts (initNoMangaCarts ev)))\<rparr>"

text \<open>\<^verbatim>\<open>_initFromDates(jd0, jd1)\<close>; \<^verbatim>\<open>assert jd0 < jd1\<close> raises \<^verbatim>\<open>AssertionError\<close>.\<close>

definition initFromDates :: "config \<Rightarrow> env \<Rightarrow> real \<Rightarrow> real \<Rightarrow> error + plugger" where
  "initFromDates cfg ev jd0 jd1 =
     (if jd0 < jd1 then
        Inr \<lparr>startDate = Some jd0, endDate = Some jd1, plTimeline = Some (newTimeline ev),
             platesToSchedule = selectPlates cfg (getAtAPO ev),
             carts = initCarts cfg, cart_order = None, nNewExposures = None\<rparr>
      else Inl AssertionError)"

text \<open>The truth value of a date: \<^verbatim>\<open>None\<close> and \<^verbatim>\<open>0.\<close> are false.\<close>

definition truthy :: "real option \<Rightarrow> bool" where
  "truthy d = (case d of None \<Rightarrow> False | Some x \<Rightarrow> x \<noteq> 0)"

text \<open>
  \<^verbatim>\<open>Plugger.__init__(startDate, endDate)\<close>. In the last branch both dates are set: a
  date that is neither \<^verbatim>\<open>None\<close> nor \<^verbatim>\<open>0.\<close> is true, so one date alone raises.
\<close>

definition Plugger_init :: "config \<Rightarrow> env \<Rightarrow> real option \<Rightarrow> real option \<Rightarrow> error + plugger" where
  "Plugger_init cfg ev startDate0 endDate0 =
     (let startDate1 = (if startDate0 = Some 0 then None else startDate0);
          endDate1 = (if endDate0 = Some 0 then None else endDate0)
      in if startDate1 = None \<and> endDate1 = None then Inr (initNoManga cfg ev)
         else if (truthy startDate1 \<or> truthy endDate1) \<and> \<not> (truthy startDate1 \<and> truthy endDate1)
           then Inl TotoroPluggerError
         else (case (startDate1, endDate1) of
                 (Some jd0, Some jd1) \<Rightarrow> initFromDates cfg ev jd0 jd1
               | _ \<Rightarrow> Inl TotoroPluggerError))"

text \<open>
  \<^verbatim>\<open>_scheduleForced\<close>: the plates of the query that are not in the timeline are added to
  \<^verbatim>\<open>timeline.scheduled\<close>.
\<close>

definition scheduleForced :: "env \<Rightarrow> timeline \<Rightarrow> timeline" where
  "scheduleForced ev tline =
     (if length (queryForcePlug ev) = 0 then tline
      else tline\<lparr>scheduled := scheduled tline @
                 filter (\<lambda>plate. plate \<notin> set (scheduled tline)) (queryForcePlug ev)\<rparr>)"

text \<open>
  The loop of \<^verbatim>\<open>schedule\<close> that removes the forced plates from \<^verbatim>\<open>_platesToSchedule\<close>
  while it iterates over it: \<open>i\<close> is the position of the iterator, and \<^verbatim>\<open>remove\<close> takes
  out the first element equal to the plate.
\<close>

function removeForced :: "int list \<Rightarrow> nat \<Rightarrow> plate list \<Rightarrow> plate list" where
  "removeForced forceScheduled i ps =
     (if i < length ps then
        (if plate_id (ps ! i) \<in> set forceScheduled
         then removeForced forceScheduled (Suc i) (remove1 (ps ! i) ps)
         else removeForced forceScheduled (Suc i) ps)
      else ps)"
  by pat_completeness auto
termination
  by (relation "measure (\<lambda>(f, i, ps). length ps - i)") (auto simp: length_remove1)

declare removeForced.simps [simp del]

text \<open>\<^verbatim>\<open>_cleanUp\<close>: removes the keys of \<^verbatim>\<open>self.carts\<close> whose value is \<^verbatim>\<open>None\<close>.\<close>

definition cleanUp :: "plugger \<Rightarrow> plugger" where
  "cleanUp pl = pl\<lparr>carts := filter (\<lambda>(key, v). v \<noteq> None) (carts pl)\<rparr>"

text \<open>
  \<^verbatim>\<open>schedule\<close> up to and with its call of \<^verbatim>\<open>allocateCarts\<close>. A plugger of
  \<^verbatim>\<open>_initFromDates\<close> has a timeline; on one without, reading \<^verbatim>\<open>self.timeline\<close> raises
  \<^verbatim>\<open>AttributeError\<close>.
\<close>

definition scheduleAllocate :: "config \<Rightarrow> env \<Rightarrow> plugger \<Rightarrow> error + plugger" where
  "scheduleAllocate cfg ev pl =
     (case plTimeline pl of
        None \<Rightarrow> Inl AttributeError
      | Some tl0 \<Rightarrow>
          (let tl1 = scheduleForced ev tl0;
               forceScheduled = map plate_id (scheduled tl1);
               toSchedule = removeForced forceScheduled 0 (platesToSchedule pl);
               tl2 = (if length (scheduled tl1) \<ge> length (carts pl) \<or> remainingTime tl1 \<le> 0
                      then tl1 else timelineSchedule ev toSchedule tl1);
               nNew = fold (\<lambda>plate d. AList.update (plate_id plate) (nMockExposures ev plate) d)
                        (scheduled tl2) []
           in allocateCarts cfg (queryActivePluggings ev)
                (pl\<lparr>plTimeline := Some tl2, platesToSchedule := toSchedule,
                    nNewExposures := Some nNew\<rparr>)
                (scheduled tl2)))"

text \<open>\<^verbatim>\<open>schedule\<close>: the allocation, then \<^verbatim>\<open>_cleanUp\<close>.\<close>

definition schedule :: "config \<Rightarrow> env \<Rightarrow> plugger \<Rightarrow> error + plugger" where
  "schedule cfg ev pl =
     (case scheduleAllocate cfg ev pl of
        Inl e \<Rightarrow> Inl e
      | Inr pl' \<Rightarrow> Inr (cleanUp pl'))"

text \<open>
  What \<^verbatim>\<open>getASOutput\<close> returns: the carts of \<^verbatim>\<open>self.carts\<close> with the \<^verbatim>\<open>plate_id\<close> of their
  plate, and the list under the key \<^verbatim>\<open>'cart_order'\<close>.
\<close>

record asOutput =
  out_carts :: "(int \<times> int option) list"
  out_cart_order :: "int list"

text \<open>
  \<^verbatim>\<open>getASOutput\<close>. Reading \<^verbatim>\<open>self.carts['cart_order']\<close> raises \<^verbatim>\<open>KeyError\<close> when
  \<^verbatim>\<open>addCartOrder\<close> has not run.
\<close>

definition getASOutput :: "config \<Rightarrow> env \<Rightarrow> plugger \<Rightarrow> error + asOutput" where
  "getASOutput cfg ev pl =
     (case (if startDate pl \<noteq> None \<and> endDate pl \<noteq> None then schedule cfg ev pl else Inr pl) of
        Inl e \<Rightarrow> Inl e
      | Inr pl' \<Rightarrow>
          (case cart_order pl' of
             None \<Rightarrow> Inl KeyError
           | Some order \<Rightarrow>
               (let nonUsedCarts = filter (\<lambda>cartNo. cartNo \<notin> set order) (mangaCarts cfg)
                in Inr \<lparr>out_carts = map (\<lambda>(key, v). (key, map_option plate_id v)) (carts pl'),
                        out_cart_order = rev (apogeeCarts cfg) @ nonUsedCarts @ order\<rparr>)))"

section \<open>Example inputs\<close>

text \<open>
  A MaNGA plate that is not plugged and has not been started, a plate plugged in a
  cart with a given completion, a configuration with given MaNGA and offline carts,
  and a plugger of \<^verbatim>\<open>_initFromDates\<close> whose \<^verbatim>\<open>_nNewExposures\<close> is set, and empty, as
  \<^verbatim>\<open>schedule\<close> sets it before it calls \<^verbatim>\<open>allocateCarts\<close> on a timeline without a plate.
\<close>

definition examplePlate :: "int \<Rightarrow> plate" where
  "examplePlate i =
     \<lparr>plate_id = i, priority = 5, isPlugged = False, activeCartNumber = 0, isReplug = False,
      pluggings = [], currentSurveyMode = Some ''MaNGA dither'', isComplete = False,
      completion = 0, completionIncompleteSets = 0, completionNoMock = 0,
      hasIncompleteSets = False, setStatuses = []\<rparr>"

definition pluggedPlate :: "int \<Rightarrow> int \<Rightarrow> real \<Rightarrow> plate" where
  "pluggedPlate i cart c =
     (examplePlate i)\<lparr>isPlugged := True, activeCartNumber := cart, completion := c,
        completionIncompleteSets := c, completionNoMock := c,
        pluggings := [\<lparr>fscan_mjd = 57000, cartridge_number = cart\<rparr>]\<rparr>"

definition exampleConfig :: "int list \<Rightarrow> int list \<Rightarrow> config" where
  "exampleConfig manga offline =
     \<lparr>mangaCarts = manga, offlineCarts = offline, apogeeCarts = [7, 8, 9],
      forcePlugPriority = 10, noPlugPriority = 1\<rparr>"

definition examplePlugger :: "config \<Rightarrow> plugger" where
  "examplePlugger cfg =
     \<lparr>startDate = Some 2457000, endDate = Some 2457001,
      plTimeline = Some \<lparr>scheduled = [], remainingTime = 8\<rparr>, platesToSchedule = [],
      carts = initCarts cfg, cart_order = None, nNewExposures = Some []\<rparr>"

text \<open>
  An environment with no plugged plate and no active plugging, in which the timeline
  schedules all the plates it is given, each with three new exposures.
\<close>

definition exampleEnv :: "plate list \<Rightarrow> env" where
  "exampleEnv plates =
     \<lparr>getPlugged = [], getAtAPO = plates, queryActivePluggings = [], queryForcePlug = [],
      newTimeline = \<lparr>scheduled = [], remainingTime = 8\<rparr>,
      timelineSchedule = (\<lambda>ps t. t\<lparr>scheduled := scheduled t @ ps, remainingTime := 0\<rparr>),
      nMockExposures = (\<lambda>p. 3)\<rparr>"

section \<open>The invariant of the allocation\<close>

text \<open>
  What holds of the state of \<^verbatim>\<open>allocateCarts\<close> between two assignments, for the set
  \<open>P\<close> of the plates to allocate, the list \<open>K\<close> of the keys of \<^verbatim>\<open>self.carts\<close> and the set
  \<open>F\<close> of the carts that are still to be decided: a cart that holds a plate is not in
  \<open>F\<close> and its plate is in \<^verbatim>\<open>allocatedPlates\<close>; no plate is held by two carts; an
  allocated plate that is plugged is held by its active cart; the carts of \<open>F\<close> are
  keys of \<^verbatim>\<open>self.carts\<close>, whose keys are \<open>K\<close>; the allocated plates are plates of \<open>P\<close>.
\<close>

definition allocInv :: "plate set \<Rightarrow> int list \<Rightarrow> int set \<Rightarrow> alloc \<Rightarrow> bool" where
  "allocInv P K F st \<longleftrightarrow>
     (\<forall>c p. map_of (a_carts st) c = Some (Some p) \<longrightarrow>
        c \<notin> F \<and> p \<in> set (a_allocatedPlates st)) \<and>
     (\<forall>c1 c2 p. map_of (a_carts st) c1 = Some (Some p) \<and>
        map_of (a_carts st) c2 = Some (Some p) \<longrightarrow> c1 = c2) \<and>
     (\<forall>p \<in> set (a_allocatedPlates st). isPlugged p \<longrightarrow>
        map_of (a_carts st) (activeCartNumber p) = Some (Some p)) \<and>
     F \<subseteq> set K \<and> map fst (a_carts st) = K \<and> set (a_allocatedPlates st) \<subseteq> P"

section \<open>The order of \<^verbatim>\<open>prioritiseCarts\<close>\<close>

lemma assignCart_fields:
  "b_empty (assignCart c b) = b_empty b @ withLabel ''empty'' [c]"
  "b_noMaNGA (assignCart c b) = b_noMaNGA b @ withLabel ''noMaNGAplate'' [c]"
  "b_complete (assignCart c b) = b_complete b @ withLabel ''MaNGA_complete'' [c]"
  "b_noStarted (assignCart c b) = b_noStarted b @ withLabel ''MaNGA_noStarted'' [c]"
  "b_unknown (assignCart c b) = b_unknown b @ withLabel ''unknown'' [c]"
  "b_started (assignCart c b) = b_started b @ withLabel ''MaNGA_started'' [c]"
  by (simp_all add: assignCart_def withLabel_def Let_def)

lemma withLabel_Cons: "withLabel l (c # cs) = withLabel l [c] @ withLabel l cs"
  by (simp add: withLabel_def)

lemma fold_assignCart:
  "fold assignCart cs b =
     \<lparr>b_empty = b_empty b @ withLabel ''empty'' cs,
      b_noMaNGA = b_noMaNGA b @ withLabel ''noMaNGAplate'' cs,
      b_complete = b_complete b @ withLabel ''MaNGA_complete'' cs,
      b_noStarted = b_noStarted b @ withLabel ''MaNGA_noStarted'' cs,
      b_unknown = b_unknown b @ withLabel ''unknown'' cs,
      b_started = b_started b @ withLabel ''MaNGA_started'' cs\<rparr>"
proof (induction cs arbitrary: b)
  case Nil
  show ?case by (simp add: withLabel_def)
next
  case (Cons c cs)
  have "fold assignCart (c # cs) b = fold assignCart cs (assignCart c b)"
    by simp
  also note Cons.IH [of "assignCart c b"]
  finally show ?case
    by (simp only: assignCart_fields withLabel_Cons [of _ c cs] append_assoc)
qed

lemma prioritiseCarts_buckets:
  "prioritiseCarts cs aps =
     withLabel ''empty'' cs @ withLabel ''MaNGA_complete'' cs @
     withLabel ''unknown'' cs @ withLabel ''noMaNGAplate'' cs @
     withLabel ''MaNGA_noStarted'' cs @
     sort_key completionOf (withLabel ''MaNGA_started'' cs)"
  by (simp add: prioritiseCarts_def fold_assignCart Let_def)

text \<open>
  C4. \<^verbatim>\<open>prioritiseCarts\<close> returns the empty carts, then the carts with a complete MaNGA
  plate, the unknown ones, those with a plate that is not MaNGA, those with a MaNGA
  plate not started, each in the order of the input, then the carts with a started
  MaNGA plate in ascending order of completion. On the statuses empty, started at 0.9,
  complete, started at 0.2, unknown it returns empty, complete, unknown, started at
  0.2, started at 0.9.
\<close>

theorem prioritiseCarts_order:
  "prioritiseCarts cartStatus activePluggings =
     withLabel ''empty'' cartStatus @ withLabel ''MaNGA_complete'' cartStatus @
     withLabel ''unknown'' cartStatus @ withLabel ''noMaNGAplate'' cartStatus @
     withLabel ''MaNGA_noStarted'' cartStatus @
     sort_key completionOf (withLabel ''MaNGA_started'' cartStatus)
   \<and> prioritiseCarts
       [(1, None, 0, ''empty'', 0), (2, Some p, 4, ''MaNGA_started'', 9/10),
        (3, Some q, 2, ''MaNGA_complete'', 1), (4, Some r, 4, ''MaNGA_started'', 2/10),
        (5, None, 10, ''unknown'', 0)] activePluggings =
       [(1, None, 0, ''empty'', 0), (3, Some q, 2, ''MaNGA_complete'', 1),
        (5, None, 10, ''unknown'', 0), (4, Some r, 4, ''MaNGA_started'', 2/10),
        (2, Some p, 4, ''MaNGA_started'', 9/10)]"
  by (simp add: prioritiseCarts_buckets)
     (simp add: withLabel_def statusLabelOf_def completionOf_def)

text \<open>
  The order on a concrete input: three started plates, two of them with the same
  completion, between two empty carts and a cart with a plate that is not MaNGA.
\<close>

theorem prioritiseCarts_order_witness:
  "prioritiseCarts
     [(1, Some (pluggedPlate 10 1 (1/2)), 4, ''MaNGA_started'', 1/2), (2, None, 0, ''empty'', 0),
      (3, Some (pluggedPlate 30 3 (1/4)), 4, ''MaNGA_started'', 1/4),
      (4, Some (pluggedPlate 40 4 0), 1, ''noMaNGAplate'', 0), (5, None, 0, ''empty'', 0),
      (6, Some (pluggedPlate 60 6 (1/2)), 4, ''MaNGA_started'', 1/2)] [] =
     [(2, None, 0, ''empty'', 0), (5, None, 0, ''empty'', 0),
      (4, Some (pluggedPlate 40 4 0), 1, ''noMaNGAplate'', 0),
      (3, Some (pluggedPlate 30 3 (1/4)), 4, ''MaNGA_started'', 1/4),
      (1, Some (pluggedPlate 10 1 (1/2)), 4, ''MaNGA_started'', 1/2),
      (6, Some (pluggedPlate 60 6 (1/2)), 4, ''MaNGA_started'', 1/2)]"
  using prioritiseCarts_order
    [of "[(1, Some (pluggedPlate 10 1 (1/2)), 4, ''MaNGA_started'', 1/2), (2, None, 0, ''empty'', 0),
      (3, Some (pluggedPlate 30 3 (1/4)), 4, ''MaNGA_started'', 1/4),
      (4, Some (pluggedPlate 40 4 0), 1, ''noMaNGAplate'', 0), (5, None, 0, ''empty'', 0),
      (6, Some (pluggedPlate 60 6 (1/2)), 4, ''MaNGA_started'', 1/2)]" "[]"]
  by (simp add: withLabel_def statusLabelOf_def completionOf_def)

section \<open>The errors of \<^verbatim>\<open>getCartStatus\<close>\<close>

text \<open>
  C5. \<^verbatim>\<open>getCartStatus\<close> raises exactly when more than one active plugging is in the
  cart, and what it raises is \<^verbatim>\<open>TotoroError\<close>; with no active plugging in the cart it
  returns the tuple of the empty cart: the cart, no plate, code 0, \<^verbatim>\<open>'empty'\<close>,
  completion 0.
\<close>

theorem getCartStatus_fatal:
  "((\<exists>e. getCartStatus activePluggings cartNumber = Inl e) \<longleftrightarrow>
      1 < length (filter (\<lambda>aP. ap_cartridge_number aP = cartNumber) activePluggings))
   \<and> (getCartStatus activePluggings cartNumber = Inl e \<longrightarrow> e = TotoroError)
   \<and> (length (filter (\<lambda>aP. ap_cartridge_number aP = cartNumber) activePluggings) = 0 \<longrightarrow>
        getCartStatus activePluggings cartNumber =
          Inr (cartNumber, None, 0, ''empty'', 0))"
  by (auto simp: getCartStatus_def Let_def cartStatusCodes_def split: list.splits option.splits)

text \<open>
  Two active pluggings in cart 3: the status of cart 3 is the error, the status of
  cart 4 is that of an empty cart.
\<close>

theorem getCartStatus_fatal_witness:
  "getCartStatus
     [\<lparr>pk = 3, ap_cartridge_number = 3, ap_plate = pluggedPlate 10 3 0\<rparr>,
      \<lparr>pk = 5, ap_cartridge_number = 3, ap_plate = pluggedPlate 20 3 0\<rparr>] 3 = Inl TotoroError
   \<and> getCartStatus
     [\<lparr>pk = 3, ap_cartridge_number = 3, ap_plate = pluggedPlate 10 3 0\<rparr>,
      \<lparr>pk = 5, ap_cartridge_number = 3, ap_plate = pluggedPlate 20 3 0\<rparr>] 4 =
       Inr (4, None, 0, ''empty'', 0)"
proof -
  let ?aps = "[\<lparr>pk = 3, ap_cartridge_number = 3, ap_plate = pluggedPlate 10 3 0\<rparr>,
      \<lparr>pk = 5, ap_cartridge_number = 3, ap_plate = pluggedPlate 20 3 0\<rparr>]"
  have "\<exists>e. getCartStatus ?aps 3 = Inl e"
    using getCartStatus_fatal [of ?aps 3] by simp
  then obtain e where e: "getCartStatus ?aps 3 = Inl e" ..
  then have "e = TotoroError"
    using getCartStatus_fatal [of ?aps 3 e] by blast
  moreover have "getCartStatus ?aps 4 = Inr (4, None, 0, ''empty'', 0)"
    using getCartStatus_fatal [of ?aps 4] by simp
  ultimately show ?thesis using e by simp
qed

section \<open>The invariant through the phases of the allocation\<close>

lemma allocInv_mono: "allocInv P K F st \<Longrightarrow> F' \<subseteq> F \<Longrightarrow> allocInv P K F' st"
  unfolding allocInv_def by blast

lemma allocInv_heldD:
  "allocInv P K F st \<Longrightarrow> map_of (a_carts st) c = Some (Some p) \<Longrightarrow>
   c \<notin> F \<and> p \<in> set (a_allocatedPlates st)"
  unfolding allocInv_def by blast

lemma allocInv_pluggedD:
  "allocInv P K F st \<Longrightarrow> p \<in> set (a_allocatedPlates st) \<Longrightarrow> isPlugged p \<Longrightarrow>
   map_of (a_carts st) (activeCartNumber p) = Some (Some p)"
  unfolding allocInv_def by blast

lemma allocInv_plugged_fresh:
  assumes "allocInv P K F st" "isPlugged p" "activeCartNumber p \<in> F"
  shows "p \<notin> set (a_allocatedPlates st)"
proof
  assume "p \<in> set (a_allocatedPlates st)"
  with assms(1) have "map_of (a_carts st) (activeCartNumber p) = Some (Some p)"
    using assms(2) by (rule allocInv_pluggedD)
  then have "activeCartNumber p \<notin> F"
    using assms(1) allocInv_heldD by blast
  then show False using assms(3) by simp
qed

lemma keys_delete: "fst ` set (AList.delete k al) = fst ` set al - {k}"
proof -
  have "set (map fst (AList.delete k al)) = set (map fst al) - {k}"
    by (simp only: delete_keys set_removeAll)
  then show ?thesis by simp
qed

lemma keys_update_mem: "k \<in> set (map fst al) \<Longrightarrow> map fst (AList.update k v al) = map fst al"
  by (simp add: update_keys)

lemma allocInv_assign:
  assumes inv: "allocInv P K F st"
    and c: "c \<in> F"
    and p: "p \<notin> set (a_allocatedPlates st)"
    and pP: "p \<in> P"
    and pl: "isPlugged p \<longrightarrow> activeCartNumber p = c"
    and cs: "a_carts st' = AList.update c (Some p) (a_carts st)"
    and al: "a_allocatedPlates st' = a_allocatedPlates st @ [p]"
  shows "allocInv P K (F - {c}) st'"
proof -
  let ?m = "map_of (a_carts st)"
  have m': "map_of (a_carts st') = ?m(c \<mapsto> Some p)"
    by (simp add: cs update_conv')
  have d: "\<And>c' q. ?m c' = Some (Some q) \<Longrightarrow> c' \<notin> F \<and> q \<in> set (a_allocatedPlates st)"
    using inv unfolding allocInv_def by blast
  have e: "\<And>c1 c2 q. ?m c1 = Some (Some q) \<Longrightarrow> ?m c2 = Some (Some q) \<Longrightarrow> c1 = c2"
    using inv unfolding allocInv_def by blast
  have f: "\<And>q. q \<in> set (a_allocatedPlates st) \<Longrightarrow> isPlugged q \<Longrightarrow>
             ?m (activeCartNumber q) = Some (Some q)"
    using inv unfolding allocInv_def by blast
  have k: "F \<subseteq> set K" "map fst (a_carts st) = K" "set (a_allocatedPlates st) \<subseteq> P"
    using inv unfolding allocInv_def by blast+
  have nop: "\<And>c'. ?m c' \<noteq> Some (Some p)"
    using d p by blast
  have 1: "\<forall>c' q. map_of (a_carts st') c' = Some (Some q) \<longrightarrow>
             c' \<notin> F - {c} \<and> q \<in> set (a_allocatedPlates st')"
    using d by (auto simp: m' al split: if_splits)
  have 2: "\<forall>c1 c2 q. map_of (a_carts st') c1 = Some (Some q) \<and>
             map_of (a_carts st') c2 = Some (Some q) \<longrightarrow> c1 = c2"
    using e nop by (auto simp: m' split: if_splits)
  have 3: "\<forall>q \<in> set (a_allocatedPlates st'). isPlugged q \<longrightarrow>
             map_of (a_carts st') (activeCartNumber q) = Some (Some q)"
  proof (intro ballI impI)
    fix q assume q: "q \<in> set (a_allocatedPlates st')" and plq: "isPlugged q"
    show "map_of (a_carts st') (activeCartNumber q) = Some (Some q)"
    proof (cases "q = p")
      case True
      then show ?thesis using pl plq by (simp add: m')
    next
      case False
      then have "q \<in> set (a_allocatedPlates st)" using q by (simp add: al)
      then have h: "?m (activeCartNumber q) = Some (Some q)" using f plq by blast
      then have "activeCartNumber q \<noteq> c" using d c by blast
      then show ?thesis using h by (simp add: m')
    qed
  qed
  have "c \<in> set (map fst (a_carts st))"
    using k c by auto
  then have 4: "map fst (a_carts st') = K"
    using k by (simp only: cs keys_update_mem)
  have 5: "set (a_allocatedPlates st') \<subseteq> P"
    using k pP by (simp add: al)
  show ?thesis
    unfolding allocInv_def using 1 2 3 4 5 k(1) by blast
qed

lemma allocPlugged_inv:
  "allocPlugged plates st = Inr st' \<Longrightarrow> allocInv P K (fst ` set (a_cartStatus st)) st \<Longrightarrow>
   set plates \<subseteq> P \<Longrightarrow> allocInv P K (fst ` set (a_cartStatus st')) st'"
proof (induction plates arbitrary: st)
  case Nil
  then show ?case by simp
next
  case (Cons p ps)
  show ?case
  proof (cases "isPlugged p")
    case False
    with Cons.prems(1) have "allocPlugged ps st = Inr st'" by simp
    moreover have "set ps \<subseteq> P" using Cons.prems(3) by simp
    ultimately show ?thesis using Cons.prems(2) Cons.IH by blast
  next
    case True
    let ?c = "activeCartNumber p"
    let ?st1 = "st\<lparr>a_carts := AList.update ?c (Some p) (a_carts st),
                    a_cartPlateMessage :=
                      AList.update ?c (Some p, ''already plugged'', None)
                        (a_cartPlateMessage st),
                    a_allocatedPlates := a_allocatedPlates st @ [p],
                    a_cartStatus := AList.delete ?c (a_cartStatus st)\<rparr>"
    from Cons.prems(1) True have mem: "?c \<in> fst ` set (a_cartStatus st)"
      by (auto simp: Let_def split: if_splits)
    with Cons.prems(1) True have rec: "allocPlugged ps ?st1 = Inr st'"
      by (simp add: Let_def)
    have fresh: "p \<notin> set (a_allocatedPlates st)"
      using Cons.prems(2) True mem by (rule allocInv_plugged_fresh)
    have pP: "p \<in> P" using Cons.prems(3) by simp
    have "allocInv P K (fst ` set (a_cartStatus st) - {?c}) ?st1"
    proof (rule allocInv_assign [OF Cons.prems(2) mem fresh pP])
      show "isPlugged p \<longrightarrow> activeCartNumber p = ?c" by simp
      show "a_carts ?st1 = AList.update ?c (Some p) (a_carts st)" by simp
      show "a_allocatedPlates ?st1 = a_allocatedPlates st @ [p]" by simp
    qed
    then have inv1: "allocInv P K (fst ` set (a_cartStatus ?st1)) ?st1"
      by (simp add: keys_delete)
    have "set ps \<subseteq> P" using Cons.prems(3) by simp
    with rec inv1 show ?thesis by (rule Cons.IH)
  qed
qed

lemma allocPlugged_allocated:
  "allocPlugged plates st = Inr st' \<Longrightarrow>
   set (a_allocatedPlates st) \<subseteq> set (a_allocatedPlates st') \<and>
   (\<forall>p \<in> set plates. isPlugged p \<longrightarrow> p \<in> set (a_allocatedPlates st'))"
proof (induction plates arbitrary: st)
  case Nil
  then show ?case by simp
next
  case (Cons p ps)
  show ?case
  proof (cases "isPlugged p")
    case False
    then show ?thesis using Cons by simp
  next
    case True
    let ?c = "activeCartNumber p"
    let ?st1 = "st\<lparr>a_carts := AList.update ?c (Some p) (a_carts st),
                    a_cartPlateMessage :=
                      AList.update ?c (Some p, ''already plugged'', None)
                        (a_cartPlateMessage st),
                    a_allocatedPlates := a_allocatedPlates st @ [p],
                    a_cartStatus := AList.delete ?c (a_cartStatus st)\<rparr>"
    from Cons.prems True have rec: "allocPlugged ps ?st1 = Inr st'"
      by (auto simp: Let_def split: if_splits)
    from Cons.IH [OF rec] show ?thesis by auto
  qed
qed

lemma set_delete_subset: "set (AList.delete k al) \<subseteq> set al"
  by (auto simp: AList.delete_eq)

lemma allocPlugged_cartStatus:
  "allocPlugged plates st = Inr st' \<Longrightarrow>
   set (a_cartStatus st') \<subseteq> set (a_cartStatus st) \<and>
   (distinct (map fst (a_cartStatus st)) \<longrightarrow> distinct (map fst (a_cartStatus st')))"
proof (induction plates arbitrary: st)
  case Nil
  then show ?case by simp
next
  case (Cons p ps)
  show ?case
  proof (cases "isPlugged p")
    case False
    then show ?thesis using Cons by simp
  next
    case True
    let ?c = "activeCartNumber p"
    let ?st1 = "st\<lparr>a_carts := AList.update ?c (Some p) (a_carts st),
                    a_cartPlateMessage :=
                      AList.update ?c (Some p, ''already plugged'', None)
                        (a_cartPlateMessage st),
                    a_allocatedPlates := a_allocatedPlates st @ [p],
                    a_cartStatus := AList.delete ?c (a_cartStatus st)\<rparr>"
    from Cons.prems True have rec: "allocPlugged ps ?st1 = Inr st'"
      by (auto simp: Let_def split: if_splits)
    from Cons.IH [OF rec] set_delete_subset [of ?c "a_cartStatus st"]
    show ?thesis by (auto simp: distinct_delete)
  qed
qed

lemma map_of_Some_key: "map_of al k = Some v \<Longrightarrow> k \<in> fst ` set al"
  by (metis map_of_SomeD fst_conv image_eqI)

lemma allocReplugs_step:
  assumes "allocReplugs cfg (p # ps) st = Inr st'"
  shows "allocReplugs cfg ps st = Inr st' \<or>
     (\<exists>c st1. p \<notin> set (a_allocatedPlates st) \<and> c \<in> fst ` set (a_cartStatus st) \<and>
        a_carts st1 = AList.update c (Some p) (a_carts st) \<and>
        a_allocatedPlates st1 = a_allocatedPlates st @ [p] \<and>
        a_cartStatus st1 = AList.delete c (a_cartStatus st) \<and>
        allocReplugs cfg ps st1 = Inr st')"
proof (cases "p \<in> set (a_allocatedPlates st) \<or> \<not> isReplug p")
  case True
  then show ?thesis using assms by (auto split: if_splits)
next
  case False
  then have np: "p \<notin> set (a_allocatedPlates st)" and rp: "isReplug p" by auto
  from assms np rp obtain c where c: "getCartForReplug p = Some c"
    by (cases "getCartForReplug p") auto
  from assms np rp c obtain n pp code label cm
    where s: "map_of (a_cartStatus st) c = Some (n, pp, code, label, cm)"
    by (cases "map_of (a_cartStatus st) c") auto
  have mem: "c \<in> fst ` set (a_cartStatus st)"
    using s by (rule map_of_Some_key)
  show ?thesis
  proof (cases "c \<notin> set (offlineCarts cfg)")
    case False
    then show ?thesis using assms np rp c s by simp
  next
    case True
    from assms np rp c s True obtain msg where m: "replaceMsgs code = Some msg"
      by (cases "replaceMsgs code") auto
    let ?st1 = "st\<lparr>a_carts := AList.update c (Some p) (a_carts st),
                    a_allocatedPlates := a_allocatedPlates st @ [p],
                    a_cartPlateMessage :=
                      AList.update c (Some p, msg, None) (a_cartPlateMessage st),
                    a_cartStatus := AList.delete c (a_cartStatus st)\<rparr>"
    have "allocReplugs cfg ps ?st1 = Inr st'"
      using assms np rp c s True m by simp
    then have "p \<notin> set (a_allocatedPlates st) \<and> c \<in> fst ` set (a_cartStatus st) \<and>
        a_carts ?st1 = AList.update c (Some p) (a_carts st) \<and>
        a_allocatedPlates ?st1 = a_allocatedPlates st @ [p] \<and>
        a_cartStatus ?st1 = AList.delete c (a_cartStatus st) \<and>
        allocReplugs cfg ps ?st1 = Inr st'"
      using np mem by simp
    then show ?thesis by blast
  qed
qed

lemma allocReplugs_inv:
  "allocReplugs cfg plates st = Inr st' \<Longrightarrow> allocInv P K (fst ` set (a_cartStatus st)) st \<Longrightarrow>
   set plates \<subseteq> P \<Longrightarrow>
   (\<forall>p \<in> set plates. isPlugged p \<longrightarrow> p \<in> set (a_allocatedPlates st)) \<Longrightarrow>
   allocInv P K (fst ` set (a_cartStatus st')) st'"
proof (induction plates arbitrary: st)
  case Nil
  then show ?case by simp
next
  case (Cons p ps)
  have sub: "set ps \<subseteq> P" and pP: "p \<in> P" using Cons.prems(3) by auto
  from allocReplugs_step [OF Cons.prems(1)] show ?case
  proof
    assume rec: "allocReplugs cfg ps st = Inr st'"
    have "\<forall>q \<in> set ps. isPlugged q \<longrightarrow> q \<in> set (a_allocatedPlates st)"
      using Cons.prems(4) by simp
    with rec Cons.prems(2) sub show ?thesis by (rule Cons.IH)
  next
    assume "\<exists>c st1. p \<notin> set (a_allocatedPlates st) \<and> c \<in> fst ` set (a_cartStatus st) \<and>
        a_carts st1 = AList.update c (Some p) (a_carts st) \<and>
        a_allocatedPlates st1 = a_allocatedPlates st @ [p] \<and>
        a_cartStatus st1 = AList.delete c (a_cartStatus st) \<and>
        allocReplugs cfg ps st1 = Inr st'"
    then obtain c st1 where fresh: "p \<notin> set (a_allocatedPlates st)"
      and mem: "c \<in> fst ` set (a_cartStatus st)"
      and cs: "a_carts st1 = AList.update c (Some p) (a_carts st)"
      and al: "a_allocatedPlates st1 = a_allocatedPlates st @ [p]"
      and stat: "a_cartStatus st1 = AList.delete c (a_cartStatus st)"
      and rec: "allocReplugs cfg ps st1 = Inr st'"
      by blast
    have "\<not> isPlugged p" using Cons.prems(4) fresh by auto
    then have pl: "isPlugged p \<longrightarrow> activeCartNumber p = c" by simp
    have "allocInv P K (fst ` set (a_cartStatus st) - {c}) st1"
      using Cons.prems(2) mem fresh pP pl cs al by (rule allocInv_assign)
    then have inv1: "allocInv P K (fst ` set (a_cartStatus st1)) st1"
      by (simp add: stat keys_delete)
    have "\<forall>q \<in> set ps. isPlugged q \<longrightarrow> q \<in> set (a_allocatedPlates st1)"
      using Cons.prems(4) by (simp add: al)
    with rec inv1 sub show ?thesis by (rule Cons.IH)
  qed
qed

lemma allocReplugs_allocated:
  "allocReplugs cfg plates st = Inr st' \<Longrightarrow>
   set (a_allocatedPlates st) \<subseteq> set (a_allocatedPlates st')"
proof (induction plates arbitrary: st)
  case Nil
  then show ?case by simp
next
  case (Cons p ps)
  from allocReplugs_step [OF Cons.prems] show ?case
  proof
    assume "allocReplugs cfg ps st = Inr st'"
    then show ?thesis by (rule Cons.IH)
  next
    assume "\<exists>c st1. p \<notin> set (a_allocatedPlates st) \<and> c \<in> fst ` set (a_cartStatus st) \<and>
        a_carts st1 = AList.update c (Some p) (a_carts st) \<and>
        a_allocatedPlates st1 = a_allocatedPlates st @ [p] \<and>
        a_cartStatus st1 = AList.delete c (a_cartStatus st) \<and>
        allocReplugs cfg ps st1 = Inr st'"
    then obtain c st1 where al: "a_allocatedPlates st1 = a_allocatedPlates st @ [p]"
      and rec: "allocReplugs cfg ps st1 = Inr st'"
      by blast
    from Cons.IH [OF rec] show ?thesis by (auto simp: al)
  qed
qed

lemma allocReplugs_cartStatus:
  "allocReplugs cfg plates st = Inr st' \<Longrightarrow>
   set (a_cartStatus st') \<subseteq> set (a_cartStatus st) \<and>
   (distinct (map fst (a_cartStatus st)) \<longrightarrow> distinct (map fst (a_cartStatus st')))"
proof (induction plates arbitrary: st)
  case Nil
  then show ?case by simp
next
  case (Cons p ps)
  from allocReplugs_step [OF Cons.prems] show ?case
  proof
    assume "allocReplugs cfg ps st = Inr st'"
    then show ?thesis by (rule Cons.IH)
  next
    assume "\<exists>c st1. p \<notin> set (a_allocatedPlates st) \<and> c \<in> fst ` set (a_cartStatus st) \<and>
        a_carts st1 = AList.update c (Some p) (a_carts st) \<and>
        a_allocatedPlates st1 = a_allocatedPlates st @ [p] \<and>
        a_cartStatus st1 = AList.delete c (a_cartStatus st) \<and>
        allocReplugs cfg ps st1 = Inr st'"
    then obtain c st1 where stat: "a_cartStatus st1 = AList.delete c (a_cartStatus st)"
      and rec: "allocReplugs cfg ps st1 = Inr st'"
      by blast
    from Cons.IH [OF rec] set_delete_subset [of c "a_cartStatus st"]
    show ?thesis by (auto simp: stat distinct_delete)
  qed
qed

lemma allocRemaining_step:
  assumes "allocRemaining (p # ps) sortedCarts st = Inr (st', rest)"
  shows "allocRemaining ps sortedCarts st = Inr (st', rest) \<or>
     (\<exists>s sortedCarts1 st1. p \<notin> set (a_allocatedPlates st) \<and> sortedCarts = s # sortedCarts1 \<and>
        a_carts st1 = AList.update (fst s) (Some p) (a_carts st) \<and>
        a_allocatedPlates st1 = a_allocatedPlates st @ [p] \<and>
        allocRemaining ps sortedCarts1 st1 = Inr (st', rest))"
proof (cases "p \<in> set (a_allocatedPlates st)")
  case True
  then show ?thesis using assms by simp
next
  case False
  from assms False obtain s sortedCarts1 where sc: "sortedCarts = s # sortedCarts1"
    by (cases sortedCarts) auto
  obtain c cp code label cm where s: "s = (c, cp, code, label, cm)"
    by (cases s) auto
  from assms False sc s obtain msg where m: "replaceMsgs code = Some msg"
    by (cases "replaceMsgs code") auto
  let ?st1 = "st\<lparr>a_carts := AList.update c (Some p) (a_carts st),
                  a_allocatedPlates := a_allocatedPlates st @ [p],
                  a_cartPlateMessage :=
                    AList.update c
                      (if label = ''MaNGA_started''
                       then (Some p, msg @ '', completion='', Some cm)
                       else (Some p, msg, None))
                      (a_cartPlateMessage st)\<rparr>"
  have "allocRemaining ps sortedCarts1 ?st1 = Inr (st', rest)"
    using assms False sc s m by simp
  then have "p \<notin> set (a_allocatedPlates st) \<and> sortedCarts = s # sortedCarts1 \<and>
        a_carts ?st1 = AList.update (fst s) (Some p) (a_carts st) \<and>
        a_allocatedPlates ?st1 = a_allocatedPlates st @ [p] \<and>
        allocRemaining ps sortedCarts1 ?st1 = Inr (st', rest)"
    using False sc s by simp
  then show ?thesis by blast
qed

lemma allocRemaining_inv:
  "allocRemaining plates sortedCarts st = Inr (st', rest) \<Longrightarrow>
   allocInv P K (fst ` set sortedCarts) st \<Longrightarrow> set plates \<subseteq> P \<Longrightarrow>
   (\<forall>p \<in> set plates. isPlugged p \<longrightarrow> p \<in> set (a_allocatedPlates st)) \<Longrightarrow>
   distinct (map fst sortedCarts) \<Longrightarrow>
   allocInv P K (fst ` set rest) st' \<and> set rest \<subseteq> set sortedCarts \<and> distinct (map fst rest)"
proof (induction plates arbitrary: st sortedCarts)
  case Nil
  then show ?case by simp
next
  case (Cons p ps)
  have sub: "set ps \<subseteq> P" and pP: "p \<in> P" using Cons.prems(3) by auto
  from allocRemaining_step [OF Cons.prems(1)] show ?case
  proof
    assume rec: "allocRemaining ps sortedCarts st = Inr (st', rest)"
    have "\<forall>q \<in> set ps. isPlugged q \<longrightarrow> q \<in> set (a_allocatedPlates st)"
      using Cons.prems(4) by simp
    with rec Cons.prems(2) sub show ?thesis using Cons.prems(5) by (rule Cons.IH)
  next
    assume "\<exists>s sortedCarts1 st1. p \<notin> set (a_allocatedPlates st) \<and>
        sortedCarts = s # sortedCarts1 \<and>
        a_carts st1 = AList.update (fst s) (Some p) (a_carts st) \<and>
        a_allocatedPlates st1 = a_allocatedPlates st @ [p] \<and>
        allocRemaining ps sortedCarts1 st1 = Inr (st', rest)"
    then obtain s sortedCarts1 st1 where fresh: "p \<notin> set (a_allocatedPlates st)"
      and sc: "sortedCarts = s # sortedCarts1"
      and cs: "a_carts st1 = AList.update (fst s) (Some p) (a_carts st)"
      and al: "a_allocatedPlates st1 = a_allocatedPlates st @ [p]"
      and rec: "allocRemaining ps sortedCarts1 st1 = Inr (st', rest)"
      by blast
    have mem: "fst s \<in> fst ` set sortedCarts" by (simp add: sc)
    have "\<not> isPlugged p" using Cons.prems(4) fresh by auto
    then have pl: "isPlugged p \<longrightarrow> activeCartNumber p = fst s" by simp
    have "allocInv P K (fst ` set sortedCarts - {fst s}) st1"
      using Cons.prems(2) mem fresh pP pl cs al by (rule allocInv_assign)
    moreover have d1: "distinct (map fst sortedCarts1)" and "fst s \<notin> fst ` set sortedCarts1"
      using Cons.prems(5) by (auto simp: sc)
    then have "fst ` set sortedCarts1 \<subseteq> fst ` set sortedCarts - {fst s}"
      by (auto simp: sc)
    ultimately have inv1: "allocInv P K (fst ` set sortedCarts1) st1"
      by (rule allocInv_mono)
    have "\<forall>q \<in> set ps. isPlugged q \<longrightarrow> q \<in> set (a_allocatedPlates st1)"
      using Cons.prems(4) by (simp add: al)
    with rec inv1 sub have "allocInv P K (fst ` set rest) st' \<and> set rest \<subseteq> set sortedCarts1 \<and>
        distinct (map fst rest)"
      using d1 by (rule Cons.IH)
    then show ?thesis by (auto simp: sc)
  qed
qed

text \<open>The check of the unassigned carts.\<close>

lemma checkUnassigned_held:
  "map_of (a_carts (checkUnassigned rest st)) c = Some (Some p) \<Longrightarrow>
   map_of (a_carts st) c = Some (Some p) \<or> (c, Some p) \<in> (\<lambda>s. (fst s, fst (snd s))) ` set rest"
proof (induction rest arbitrary: st)
  case Nil
  then show ?case by simp
next
  case (Cons s rest)
  obtain n occ code label cm where s: "s = (n, occ, code, label, cm)"
    by (cases s) auto
  show ?case
    using Cons.prems
    by (cases occ; cases "1 \<le> cm"; cases "label = ''noMaNGAplate''")
       (auto simp: s update_conv' dest!: Cons.IH split: if_splits)
qed

lemma checkUnassigned_other:
  "c \<notin> fst ` set rest \<Longrightarrow>
   map_of (a_carts (checkUnassigned rest st)) c = map_of (a_carts st) c"
proof (induction rest arbitrary: st)
  case Nil
  then show ?case by simp
next
  case (Cons s rest)
  obtain n occ code label cm where s: "s = (n, occ, code, label, cm)"
    by (cases s) auto
  from Cons.prems have nc: "n \<noteq> c" and rest: "c \<notin> fst ` set rest"
    by (auto simp: s)
  show ?case
    using Cons.IH [OF rest] nc
    by (cases occ) (simp_all add: s update_conv')
qed

lemma checkUnassigned_keys:
  "fst ` set rest \<subseteq> fst ` set (a_carts st) \<Longrightarrow>
   map fst (a_carts (checkUnassigned rest st)) = map fst (a_carts st)"
proof (induction rest arbitrary: st)
  case Nil
  then show ?case by simp
next
  case (Cons s rest)
  obtain n occ code label cm where s: "s = (n, occ, code, label, cm)"
    by (cases s) auto
  from Cons.prems have n: "n \<in> set (map fst (a_carts st))"
    and rest: "fst ` set rest \<subseteq> fst ` set (a_carts st)"
    by (auto simp: s)
  have k: "map fst (AList.update n occ (a_carts st)) = map fst (a_carts st)"
    using n by (rule keys_update_mem)
  then have k': "fst ` set (AList.update n occ (a_carts st)) = fst ` set (a_carts st)"
    by (metis list.set_map)
  show ?case
    using rest k k'
    by (cases occ) (simp_all add: s Cons.IH)
qed

lemma allocRemaining_allocated:
  "allocRemaining plates sortedCarts st = Inr (st', rest) \<Longrightarrow>
   set (a_allocatedPlates st) \<subseteq> set (a_allocatedPlates st')"
proof (induction plates arbitrary: st sortedCarts)
  case Nil
  then show ?case by simp
next
  case (Cons p ps)
  from allocRemaining_step [OF Cons.prems] show ?case
  proof
    assume "allocRemaining ps sortedCarts st = Inr (st', rest)"
    then show ?thesis by (rule Cons.IH)
  next
    assume "\<exists>s sortedCarts1 st1. p \<notin> set (a_allocatedPlates st) \<and>
        sortedCarts = s # sortedCarts1 \<and>
        a_carts st1 = AList.update (fst s) (Some p) (a_carts st) \<and>
        a_allocatedPlates st1 = a_allocatedPlates st @ [p] \<and>
        allocRemaining ps sortedCarts1 st1 = Inr (st', rest)"
    then obtain sortedCarts1 st1 where al: "a_allocatedPlates st1 = a_allocatedPlates st @ [p]"
      and rec: "allocRemaining ps sortedCarts1 st1 = Inr (st', rest)"
      by blast
    from Cons.IH [OF rec] show ?thesis by (auto simp: al)
  qed
qed

text \<open>The carts at the start of the allocation.\<close>

lemma fold_update_None:
  "distinct (map fst cs) \<Longrightarrow> snd ` set cs \<subseteq> {None} \<Longrightarrow>
   distinct (map fst (fold (\<lambda>k cs. if Q k then AList.update (f k) None cs else cs) ks cs)) \<and>
   snd ` set (fold (\<lambda>k cs. if Q k then AList.update (f k) None cs else cs) ks cs) \<subseteq> {None} \<and>
   fst ` set (fold (\<lambda>k cs. if Q k then AList.update (f k) None cs else cs) ks cs) =
     fst ` set cs \<union> f ` {k \<in> set ks. Q k}"
proof (induction ks arbitrary: cs)
  case Nil
  then show ?case by simp
next
  case (Cons k ks)
  show ?case
  proof (cases "Q k")
    case False
    with Cons.IH [OF Cons.prems] show ?thesis by auto
  next
    case True
    have d: "distinct (map fst (AList.update (f k) None cs))"
      using Cons.prems(1) by (rule distinct_update)
    have "set (AList.update (f k) None cs) \<subseteq> set cs \<union> {(f k, None)}"
      by (induction cs) auto
    then have v: "snd ` set (AList.update (f k) None cs) \<subseteq> {None}"
      using Cons.prems(2) by fastforce
    have "fst ` set (AList.update (f k) None cs) = {f k} \<union> fst ` set cs"
      by (rule dom_update)
    with Cons.IH [OF d v] True show ?thesis by auto
  qed
qed

lemma initCarts_facts:
  "distinct (map fst (initCarts cfg)) \<and> snd ` set (initCarts cfg) \<subseteq> {None} \<and>
   fst ` set (initCarts cfg) = set (mangaCarts cfg) - set (offlineCarts cfg)"
proof -
  have eq: "initCarts cfg =
      fold (\<lambda>k cs. if True then AList.update (id k) None cs else cs)
        (filter (\<lambda>key. key \<notin> set (offlineCarts cfg)) (mangaCarts cfg)) []"
    by (simp add: initCarts_def)
  show ?thesis
    unfolding eq
    using fold_update_None [of "[]" "\<lambda>k. True" id
        "filter (\<lambda>key. key \<notin> set (offlineCarts cfg)) (mangaCarts cfg)"]
    by auto
qed

lemma resetOffline_facts:
  "distinct (map fst (resetOffline cfg aps (initCarts cfg))) \<and>
   snd ` set (resetOffline cfg aps (initCarts cfg)) \<subseteq> {None} \<and>
   fst ` set (resetOffline cfg aps (initCarts cfg)) =
     (set (mangaCarts cfg) - set (offlineCarts cfg)) \<union>
     (pk ` set aps \<inter> set (offlineCarts cfg))"
proof -
  have "pk ` {k \<in> set aps. pk k \<in> set (offlineCarts cfg)} = pk ` set aps \<inter> set (offlineCarts cfg)"
    by auto
  then show ?thesis
    unfolding resetOffline_def
    using fold_update_None [of "initCarts cfg" "\<lambda>aP. pk aP \<in> set (offlineCarts cfg)" pk aps]
      initCarts_facts [of cfg]
    by simp
qed

lemma getCartStatus_Inr:
  "getCartStatus aps k = Inr s \<Longrightarrow>
   fst s = k \<and> (\<forall>p. fst (snd s) = Some p \<longrightarrow>
     (\<exists>aP \<in> set aps. ap_cartridge_number aP = k \<and> ap_plate aP = p))"
proof -
  assume a: "getCartStatus aps k = Inr s"
  show ?thesis
  proof (cases "filter (\<lambda>aP. ap_cartridge_number aP = k) aps")
    case Nil
    then show ?thesis using a by (auto simp: getCartStatus_def)
  next
    case (Cons aP rest)
    then have "aP \<in> set (filter (\<lambda>aP. ap_cartridge_number aP = k) aps)" by simp
    then have mem: "aP \<in> set aps" "ap_cartridge_number aP = k" by auto
    from a Cons have "rest = []"
      by (cases rest) (auto simp: getCartStatus_def)
    with a Cons have "fst s = k \<and> (fst (snd s) = None \<or> fst (snd s) = Some (ap_plate aP))"
      by (auto simp: getCartStatus_def Let_def split: if_splits)
    with mem show ?thesis by auto
  qed
qed

lemma cartStatusOf_facts:
  "cartStatusOf aps cs = Inr cst \<Longrightarrow> snd ` set cs \<subseteq> {None} \<Longrightarrow>
   map fst cst = map fst cs \<and> (\<forall>x \<in> set cst. getCartStatus aps (fst x) = Inr (snd x))"
proof (induction cs arbitrary: cst)
  case Nil
  then show ?case by simp
next
  case (Cons kv cs)
  obtain k v where kv: "kv = (k, v)" by (cases kv) auto
  from Cons.prems(2) have v: "v = None" and rest: "snd ` set cs \<subseteq> {None}"
    by (auto simp: kv)
  from Cons.prems(1) v obtain s where s: "getCartStatus aps k = Inr s"
    by (cases "getCartStatus aps k") (auto simp: kv)
  from Cons.prems(1) v s obtain ss where ss: "cartStatusOf aps cs = Inr ss"
    by (cases "cartStatusOf aps cs") (auto simp: kv)
  from Cons.prems(1) v s ss have cst: "cst = (k, s) # ss"
    by (auto simp: kv)
  from Cons.IH [OF ss rest] show ?case
    by (simp add: cst kv s)
qed

text \<open>The sorted carts are carts of the input, each once.\<close>

lemma mset_prioritiseCarts: "mset (prioritiseCarts cs aps) \<subseteq># mset cs"
proof -
  have "mset (prioritiseCarts cs aps) =
      filter_mset (\<lambda>c. statusLabelOf c \<in> {''empty'', ''MaNGA_complete'', ''unknown'',
        ''noMaNGAplate'', ''MaNGA_noStarted'', ''MaNGA_started''}) (mset cs)"
    by (induction cs) (auto simp: prioritiseCarts_buckets withLabel_def)
  then show ?thesis by simp
qed

lemma distinct_map_submset:
  assumes "mset ys \<subseteq># mset xs" "distinct (map f xs)"
  shows "distinct (map f ys)"
proof -
  have "image_mset f (mset ys) \<subseteq># image_mset f (mset xs)"
    using assms(1) by (rule image_mset_subseteq_mono)
  then have sub: "mset (map f ys) \<subseteq># mset (map f xs)" by simp
  have le1: "count (mset (map f xs)) a \<le> 1" for a
    using assms(2) by (simp only: distinct_count_atmost_1 split: if_splits) simp
  have "count (mset (map f ys)) a = (if a \<in> set (map f ys) then 1 else 0)" for a
  proof (cases "a \<in> set (map f ys)")
    case True
    then have "1 \<le> count (mset (map f ys)) a"
      by (metis count_greater_eq_one_iff set_mset_mset)
    moreover have "count (mset (map f ys)) a \<le> count (mset (map f xs)) a"
      using sub by (rule mset_subset_eq_count)
    ultimately have "count (mset (map f ys)) a = 1"
      using le1 [of a] by linarith
    then show ?thesis using True by (simp only: if_True)
  next
    case False
    then have "count (mset (map f ys)) a = 0"
      by (metis count_mset_0_iff)
    then show ?thesis using False by (simp only: if_False)
  qed
  then show ?thesis unfolding distinct_count_atmost_1 by blast
qed

lemma prioritiseCarts_facts:
  "set (prioritiseCarts cs aps) \<subseteq> set cs \<and>
   (distinct (map fst cs) \<longrightarrow> distinct (map fst (prioritiseCarts cs aps)))"
  using mset_prioritiseCarts [of cs aps] set_mset_mono [OF mset_prioritiseCarts [of cs aps]]
    distinct_map_submset [OF mset_prioritiseCarts [of cs aps], of fst]
  by auto

lemma truncatePlates_take: "truncatePlates cs plates = take (length cs) plates"
  by (simp add: truncatePlates_def)

lemma allocPhases12_run:
  assumes run: "allocPhases12 cfg aps (initCarts cfg) plates = Inr st2"
  shows "allocInv (set (truncatePlates (initCarts cfg) plates))
           (map fst (resetOffline cfg aps (initCarts cfg))) (fst ` set (a_cartStatus st2)) st2 \<and>
         distinct (map fst (a_cartStatus st2)) \<and>
         (\<forall>x \<in> set (a_cartStatus st2). getCartStatus aps (fst x) = Inr (snd x)) \<and>
         (\<forall>p \<in> set (truncatePlates (initCarts cfg) plates).
            isPlugged p \<longrightarrow> p \<in> set (a_allocatedPlates st2))"
proof -
  let ?ps = "truncatePlates (initCarts cfg) plates"
  let ?cs1 = "resetOffline cfg aps (initCarts cfg)"
  let ?K = "map fst ?cs1"
  from run obtain cst where cst: "cartStatusOf aps ?cs1 = Inr cst"
    by (cases "cartStatusOf aps ?cs1") (auto simp: allocPhases12_def Let_def)
  let ?st0 = "\<lparr>a_carts = ?cs1, a_cartStatus = cst, a_allocatedPlates = [],
                a_cartPlateMessage = []\<rparr>"
  from run cst obtain st1 where st1: "allocPlugged ?ps ?st0 = Inr st1"
    by (cases "allocPlugged ?ps ?st0") (auto simp: allocPhases12_def Let_def)
  from run cst st1 have st2: "allocReplugs cfg ?ps st1 = Inr st2"
    by (simp add: allocPhases12_def Let_def)
  have cs1: "distinct ?K" "snd ` set ?cs1 \<subseteq> {None}"
    using resetOffline_facts [of cfg aps] by auto
  have cstf: "map fst cst = ?K" "\<forall>x \<in> set cst. getCartStatus aps (fst x) = Inr (snd x)"
    using cartStatusOf_facts [OF cst cs1(2)] by auto
  have nohold: "map_of ?cs1 c \<noteq> Some (Some p)" for c p
  proof
    assume "map_of ?cs1 c = Some (Some p)"
    then have "(c, Some p) \<in> set ?cs1" by (rule map_of_SomeD)
    then have "Some p \<in> snd ` set ?cs1" by force
    with cs1(2) show False by auto
  qed
  have "fst ` set cst = set ?K"
    using cstf(1) by (metis list.set_map)
  then have inv0: "allocInv (set ?ps) ?K (fst ` set (a_cartStatus ?st0)) ?st0"
    unfolding allocInv_def using nohold by simp
  have inv1: "allocInv (set ?ps) ?K (fst ` set (a_cartStatus st1)) st1"
    using st1 inv0 by (rule allocPlugged_inv) simp
  have al1: "\<forall>p \<in> set ?ps. isPlugged p \<longrightarrow> p \<in> set (a_allocatedPlates st1)"
    using allocPlugged_allocated [OF st1] by blast
  have c1: "set (a_cartStatus st1) \<subseteq> set cst" "distinct (map fst (a_cartStatus st1))"
    using allocPlugged_cartStatus [OF st1] cs1(1) cstf(1) by auto
  have inv2: "allocInv (set ?ps) ?K (fst ` set (a_cartStatus st2)) st2"
    using st2 inv1 _ al1 by (rule allocReplugs_inv) simp
  have al2: "\<forall>p \<in> set ?ps. isPlugged p \<longrightarrow> p \<in> set (a_allocatedPlates st2)"
    using al1 allocReplugs_allocated [OF st2] by blast
  have c2: "set (a_cartStatus st2) \<subseteq> set cst" "distinct (map fst (a_cartStatus st2))"
    using allocReplugs_cartStatus [OF st2] c1 by auto
  show ?thesis
    using inv2 al2 c2 cstf(2) by blast
qed

lemma sortedCartsOf_facts:
  assumes d: "distinct (map fst (a_cartStatus st2))"
    and g: "\<forall>x \<in> set (a_cartStatus st2). getCartStatus aps (fst x) = Inr (snd x)"
  shows "distinct (map fst (sortedCartsOf aps st2)) \<and>
         fst ` set (sortedCartsOf aps st2) \<subseteq> fst ` set (a_cartStatus st2) \<and>
         (\<forall>s \<in> set (sortedCartsOf aps st2). getCartStatus aps (fst s) = Inr s)"
proof -
  have key: "fst (snd x) = fst x" if "x \<in> set (a_cartStatus st2)" for x
    using g that getCartStatus_Inr [of aps "fst x" "snd x"] by auto
  then have "map (\<lambda>x. fst (snd x)) (a_cartStatus st2) = map fst (a_cartStatus st2)"
    by (intro map_cong) simp_all
  then have "map fst (map snd (a_cartStatus st2)) = map fst (a_cartStatus st2)"
    by (simp add: comp_def)
  then have "distinct (map fst (map snd (a_cartStatus st2)))"
    using d by (simp only:)
  then have 1: "distinct (map fst (sortedCartsOf aps st2))"
    using prioritiseCarts_facts [of "map snd (a_cartStatus st2)" aps]
    unfolding sortedCartsOf_def by blast
  have sub: "set (sortedCartsOf aps st2) \<subseteq> snd ` set (a_cartStatus st2)"
    using prioritiseCarts_facts [of "map snd (a_cartStatus st2)" aps]
    unfolding sortedCartsOf_def by auto
  have 3: "\<forall>s \<in> set (sortedCartsOf aps st2). getCartStatus aps (fst s) = Inr s"
  proof
    fix s assume "s \<in> set (sortedCartsOf aps st2)"
    with sub obtain x where x: "x \<in> set (a_cartStatus st2)" "s = snd x" by auto
    with g key [OF x(1)] show "getCartStatus aps (fst s) = Inr s" by simp
  qed
  have 2: "fst ` set (sortedCartsOf aps st2) \<subseteq> fst ` set (a_cartStatus st2)"
  proof
    fix c assume "c \<in> fst ` set (sortedCartsOf aps st2)"
    then obtain s where s: "s \<in> set (sortedCartsOf aps st2)" "c = fst s" by auto
    with sub obtain x where x: "x \<in> set (a_cartStatus st2)" "s = snd x" by auto
    with key [OF x(1)] s show "c \<in> fst ` set (a_cartStatus st2)" by auto
  qed
  show ?thesis using 1 2 3 by blast
qed

lemma allocate_run:
  assumes run: "allocate cfg aps (initCarts cfg) plates = Inr st"
  shows "\<exists>st2 st3 rest.
     allocPhases12 cfg aps (initCarts cfg) plates = Inr st2 \<and>
     st = checkUnassigned rest st3 \<and>
     allocInv (set (truncatePlates (initCarts cfg) plates))
       (map fst (resetOffline cfg aps (initCarts cfg))) (fst ` set rest) st3 \<and>
     (\<forall>s \<in> set rest. getCartStatus aps (fst s) = Inr s) \<and>
     (\<forall>p \<in> set (truncatePlates (initCarts cfg) plates).
        isPlugged p \<longrightarrow> p \<in> set (a_allocatedPlates st3)) \<and>
     set rest \<subseteq> set (sortedCartsOf aps st2)"
proof -
  let ?ps = "truncatePlates (initCarts cfg) plates"
  let ?K = "map fst (resetOffline cfg aps (initCarts cfg))"
  from run obtain st2 where st2: "allocPhases12 cfg aps (initCarts cfg) plates = Inr st2"
    by (cases "allocPhases12 cfg aps (initCarts cfg) plates") (auto simp: allocate_def)
  from run st2 obtain st3 rest
    where st3: "allocRemaining ?ps (sortedCartsOf aps st2) st2 = Inr (st3, rest)"
    by (cases "allocRemaining ?ps (sortedCartsOf aps st2) st2") (auto simp: allocate_def)
  from run st2 st3 have st: "st = checkUnassigned rest st3"
    by (simp add: allocate_def)
  note p12 = allocPhases12_run [OF st2]
  have sf: "distinct (map fst (sortedCartsOf aps st2))"
    "fst ` set (sortedCartsOf aps st2) \<subseteq> fst ` set (a_cartStatus st2)"
    "\<forall>s \<in> set (sortedCartsOf aps st2). getCartStatus aps (fst s) = Inr s"
    using sortedCartsOf_facts [of st2 aps] p12 by blast+
  have inv2: "allocInv (set ?ps) ?K (fst ` set (sortedCartsOf aps st2)) st2"
    using p12 sf(2) allocInv_mono by blast
  have al2: "\<forall>p \<in> set ?ps. isPlugged p \<longrightarrow> p \<in> set (a_allocatedPlates st2)"
    using p12 by blast
  have r3: "allocInv (set ?ps) ?K (fst ` set rest) st3 \<and>
      set rest \<subseteq> set (sortedCartsOf aps st2) \<and> distinct (map fst rest)"
    using st3 inv2 _ al2 sf(1) by (rule allocRemaining_inv) simp
  have al3: "\<forall>p \<in> set ?ps. isPlugged p \<longrightarrow> p \<in> set (a_allocatedPlates st3)"
    using al2 allocRemaining_allocated [OF st3] by blast
  have "\<forall>s \<in> set rest. getCartStatus aps (fst s) = Inr s"
    using r3 sf(3) by blast
  with st2 st r3 al3 show ?thesis by blast
qed

lemma allocateCarts_allocate:
  assumes "carts pl = initCarts cfg" "allocateCarts cfg aps pl plates = Inr pl'"
  shows "\<exists>st. allocate cfg aps (initCarts cfg) plates = Inr st \<and> carts pl' = a_carts st"
  using assms
  by (cases "allocate cfg aps (initCarts cfg) plates")
     (auto simp: allocateCarts_def addCartOrder_def split: option.splits if_splits)

lemma allocInv_uniqueD:
  "allocInv P K F st \<Longrightarrow> map_of (a_carts st) c1 = Some (Some p) \<Longrightarrow>
   map_of (a_carts st) c2 = Some (Some p) \<Longrightarrow> c1 = c2"
  unfolding allocInv_def by blast

lemma allocInv_keysD:
  "allocInv P K F st \<Longrightarrow>
   map fst (a_carts st) = K \<and> F \<subseteq> set K \<and> set (a_allocatedPlates st) \<subseteq> P"
  unfolding allocInv_def by blast

section \<open>The final allocation\<close>

text \<open>
  C1, as amended. A run of \<^verbatim>\<open>allocateCarts\<close> on the carts of \<^verbatim>\<open>_initFromDates\<close> that
  returns leaves a mapping in which each cart is a key once, so that it holds at most
  one plate, and in which no plate (a plate is known by its \<^verbatim>\<open>plate_id\<close>) is held by two
  carts, when the plates and the active pluggings are one consistent reading of the
  database: plates to allocate with the same identifier are the same plate, a plate to
  allocate that has an active plugging is flagged as plugged in the cart of that
  plugging, and the active pluggings of one plate are in one cart.
\<close>

theorem allocateCarts_unique:
  assumes init: "carts pl = initCarts cfg"
    and run: "allocateCarts cfg activePluggings pl plates = Inr pl'"
    and ids: "inj_on plate_id (set plates)"
    and plugged: "\<forall>p \<in> set plates. \<forall>aP \<in> set activePluggings.
        plate_id (ap_plate aP) = plate_id p \<longrightarrow>
        isPlugged p \<and> activeCartNumber p = ap_cartridge_number aP"
    and once: "\<forall>a \<in> set activePluggings. \<forall>b \<in> set activePluggings.
        plate_id (ap_plate a) = plate_id (ap_plate b) \<longrightarrow>
        ap_cartridge_number a = ap_cartridge_number b"
  shows "distinct (map fst (carts pl')) \<and>
     (\<forall>c1 c2 p1 p2. map_of (carts pl') c1 = Some (Some p1) \<and>
        map_of (carts pl') c2 = Some (Some p2) \<and> plate_id p1 = plate_id p2 \<longrightarrow> c1 = c2)"
proof -
  let ?ps = "truncatePlates (initCarts cfg) plates"
  let ?K = "map fst (resetOffline cfg activePluggings (initCarts cfg))"
  from allocateCarts_allocate [OF init run] obtain st
    where st: "allocate cfg activePluggings (initCarts cfg) plates = Inr st"
      and cs: "carts pl' = a_carts st"
    by blast
  from allocate_run [OF st] obtain st2 st3 rest
    where fin: "st = checkUnassigned rest st3"
      and inv: "allocInv (set ?ps) ?K (fst ` set rest) st3"
      and occ: "\<forall>s \<in> set rest. getCartStatus activePluggings (fst s) = Inr s"
      and al: "\<forall>p \<in> set ?ps. isPlugged p \<longrightarrow> p \<in> set (a_allocatedPlates st3)"
    by blast
  have K: "map fst (a_carts st3) = ?K" "fst ` set rest \<subseteq> set ?K"
    "set (a_allocatedPlates st3) \<subseteq> set ?ps"
    using allocInv_keysD [OF inv] by blast+
  have sub: "set ?ps \<subseteq> set plates"
    by (auto simp: truncatePlates_take dest: in_set_takeD)
  have "fst ` set rest \<subseteq> fst ` set (a_carts st3)"
    using K(1,2) by (metis list.set_map)
  then have "map fst (a_carts st) = ?K"
    using K(1) by (simp add: fin checkUnassigned_keys)
  moreover have "distinct ?K"
    using resetOffline_facts [of cfg activePluggings] by blast
  ultimately have 1: "distinct (map fst (carts pl'))"
    by (simp add: cs)
  txt \<open>A plate of the final mapping was allocated in a phase, or was left in its cart.\<close>
  have held: "(map_of (a_carts st3) c = Some (Some p) \<and> p \<in> set plates \<and> c \<notin> fst ` set rest \<and>
        (isPlugged p \<longrightarrow> activeCartNumber p = c)) \<or>
      (c \<in> fst ` set rest \<and>
        (\<exists>aP \<in> set activePluggings. ap_cartridge_number aP = c \<and> ap_plate aP = p))"
    if h: "map_of (carts pl') c = Some (Some p)" for c p
  proof -
    from h have "map_of (a_carts (checkUnassigned rest st3)) c = Some (Some p)"
      by (simp add: cs fin)
    from checkUnassigned_held [OF this] show ?thesis
    proof
      assume m: "map_of (a_carts st3) c = Some (Some p)"
      from allocInv_heldD [OF inv m] have c: "c \<notin> fst ` set rest"
        and p: "p \<in> set (a_allocatedPlates st3)" by auto
      have "activeCartNumber p = c" if "isPlugged p"
      proof -
        from allocInv_pluggedD [OF inv p that] m show ?thesis
          by (rule allocInv_uniqueD [OF inv])
      qed
      with m c p K(3) sub show ?thesis by blast
    next
      assume "(c, Some p) \<in> (\<lambda>s. (fst s, fst (snd s))) ` set rest"
      then obtain s where s: "s \<in> set rest" "fst s = c" "fst (snd s) = Some p" by auto
      with occ have "getCartStatus activePluggings c = Inr s" by auto
      from getCartStatus_Inr [OF this] s(3)
      have "\<exists>aP \<in> set activePluggings. ap_cartridge_number aP = c \<and> ap_plate aP = p"
        by blast
      with s show ?thesis by auto
    qed
  qed
  from ids have inj: "p1 = p2"
    if "p1 \<in> set plates" "p2 \<in> set plates" "plate_id p1 = plate_id p2" for p1 p2
    using that by (auto dest: inj_onD)
  have 2: "c1 = c2"
    if h1: "map_of (carts pl') c1 = Some (Some p1)"
      and h2: "map_of (carts pl') c2 = Some (Some p2)"
      and eq: "plate_id p1 = plate_id p2" for c1 c2 p1 p2
  proof -
    have mixed: "c = c'"
      if a: "map_of (a_carts st3) c = Some (Some p)" "p \<in> set plates" "c \<notin> fst ` set rest"
        "isPlugged p \<longrightarrow> activeCartNumber p = c"
        and b: "c' \<in> fst ` set rest" "aP \<in> set activePluggings" "ap_cartridge_number aP = c'"
        "plate_id (ap_plate aP) = plate_id p" for c c' p aP
    proof -
      from plugged a(2) b(2,4) have "isPlugged p" "activeCartNumber p = ap_cartridge_number aP"
        by auto
      with a(4) b(3) show ?thesis by simp
    qed
    from held [OF h1] held [OF h2] show ?thesis
    proof (elim disjE conjE bexE)
      assume a: "map_of (a_carts st3) c1 = Some (Some p1)" "p1 \<in> set plates"
        "map_of (a_carts st3) c2 = Some (Some p2)" "p2 \<in> set plates"
      with inj eq have "p1 = p2" by blast
      with a show ?thesis using allocInv_uniqueD [OF inv] by blast
    next
      fix aP
      assume "map_of (a_carts st3) c1 = Some (Some p1)" "p1 \<in> set plates"
        "c1 \<notin> fst ` set rest" "isPlugged p1 \<longrightarrow> activeCartNumber p1 = c1"
        "c2 \<in> fst ` set rest" "aP \<in> set activePluggings" "ap_cartridge_number aP = c2"
        "ap_plate aP = p2"
      with eq mixed [of c1 p1 c2 aP] show ?thesis by simp
    next
      fix aP
      assume "map_of (a_carts st3) c2 = Some (Some p2)" "p2 \<in> set plates"
        "c2 \<notin> fst ` set rest" "isPlugged p2 \<longrightarrow> activeCartNumber p2 = c2"
        "c1 \<in> fst ` set rest" "aP \<in> set activePluggings" "ap_cartridge_number aP = c1"
        "ap_plate aP = p1"
      with eq mixed [of c2 p2 c1 aP] show ?thesis by simp
    next
      fix a b
      assume ab: "a \<in> set activePluggings" "ap_cartridge_number a = c1" "ap_plate a = p1"
        "b \<in> set activePluggings" "ap_cartridge_number b = c2" "ap_plate b = p2"
      then have "plate_id (ap_plate a) = plate_id (ap_plate b)" using eq by simp
      with once ab(1,4) have "ap_cartridge_number a = ap_cartridge_number b" by blast
      with ab show ?thesis by simp
    qed
  qed
  from 1 2 show ?thesis by blast
qed

text \<open>
  C2, as amended. In a run of \<^verbatim>\<open>allocateCarts\<close> that returns, every plugged plate among
  the first \<open>N\<close> plates to allocate, \<open>N\<close> the number of carts of \<^verbatim>\<open>self.carts\<close>, is held by
  its active cart in the final mapping. (The plates after the first \<open>N\<close> are dropped
  before phase 1.)
\<close>

theorem allocateCarts_keeps_plugged:
  assumes init: "carts pl = initCarts cfg"
    and run: "allocateCarts cfg activePluggings pl plates = Inr pl'"
    and mem: "p \<in> set (take (length (carts pl)) plates)"
    and plugged: "isPlugged p"
  shows "map_of (carts pl') (activeCartNumber p) = Some (Some p)"
proof -
  let ?ps = "truncatePlates (initCarts cfg) plates"
  let ?K = "map fst (resetOffline cfg activePluggings (initCarts cfg))"
  from allocateCarts_allocate [OF init run] obtain st
    where st: "allocate cfg activePluggings (initCarts cfg) plates = Inr st"
      and cs: "carts pl' = a_carts st"
    by blast
  from allocate_run [OF st] obtain st2 st3 rest
    where fin: "st = checkUnassigned rest st3"
      and inv: "allocInv (set ?ps) ?K (fst ` set rest) st3"
      and al: "\<forall>p \<in> set ?ps. isPlugged p \<longrightarrow> p \<in> set (a_allocatedPlates st3)"
    by blast
  have "p \<in> set ?ps" using mem by (simp add: truncatePlates_take init)
  with al plugged have p: "p \<in> set (a_allocatedPlates st3)" by blast
  from allocInv_pluggedD [OF inv p plugged]
  have m: "map_of (a_carts st3) (activeCartNumber p) = Some (Some p)" .
  from allocInv_heldD [OF inv m] have "activeCartNumber p \<notin> fst ` set rest" by simp
  then have "map_of (a_carts (checkUnassigned rest st3)) (activeCartNumber p) =
      map_of (a_carts st3) (activeCartNumber p)"
    by (rule checkUnassigned_other)
  with m show ?thesis by (simp add: cs fin)
qed

text \<open>
  The offline carts that a run leaves alone: an offline cart that is the primary key of
  no active plugging is not a key of the final mapping of a run that returns, and it is
  not among the sorted carts that phase 3 takes its carts from. The only offline carts
  that a run can use are those that the loop over the active pluggings puts back into
  \<^verbatim>\<open>self.carts\<close>.
\<close>

lemma allocateCarts_offline_unused:
  assumes init: "carts pl = initCarts cfg"
    and off: "c \<in> set (offlineCarts cfg)"
    and noap: "c \<notin> pk ` set activePluggings"
  shows "(allocateCarts cfg activePluggings pl plates = Inr pl' \<longrightarrow> c \<notin> fst ` set (carts pl')) \<and>
     (allocPhases12 cfg activePluggings (carts pl) plates = Inr st2 \<longrightarrow>
        c \<notin> fst ` set (sortedCartsOf activePluggings st2))"
proof -
  let ?ps = "truncatePlates (initCarts cfg) plates"
  let ?K = "map fst (resetOffline cfg activePluggings (initCarts cfg))"
  have "set ?K = (set (mangaCarts cfg) - set (offlineCarts cfg)) \<union>
      (pk ` set activePluggings \<inter> set (offlineCarts cfg))"
    using resetOffline_facts [of cfg activePluggings] by (metis list.set_map)
  then have cK: "c \<notin> set ?K"
    using off noap by blast
  have 1: "c \<notin> fst ` set (carts pl')"
    if run: "allocateCarts cfg activePluggings pl plates = Inr pl'"
  proof -
    from allocateCarts_allocate [OF init run] obtain st
      where st: "allocate cfg activePluggings (initCarts cfg) plates = Inr st"
        and cs: "carts pl' = a_carts st"
      by blast
    from allocate_run [OF st] obtain st2 st3 rest
      where fin: "st = checkUnassigned rest st3"
        and inv: "allocInv (set ?ps) ?K (fst ` set rest) st3"
      by blast
    have K: "map fst (a_carts st3) = ?K" "fst ` set rest \<subseteq> set ?K"
      using allocInv_keysD [OF inv] by blast+
    have "fst ` set rest \<subseteq> fst ` set (a_carts st3)"
      using K by (metis list.set_map)
    then have "map fst (a_carts st) = ?K"
      using K(1) by (simp add: fin checkUnassigned_keys)
    then have "fst ` set (carts pl') = set ?K"
      by (metis cs list.set_map)
    with cK show ?thesis by simp
  qed
  have 2: "c \<notin> fst ` set (sortedCartsOf activePluggings st2)"
    if run: "allocPhases12 cfg activePluggings (carts pl) plates = Inr st2"
  proof -
    from run have run': "allocPhases12 cfg activePluggings (initCarts cfg) plates = Inr st2"
      by (simp add: init)
    note p12 = allocPhases12_run [OF run']
    have "fst ` set (sortedCartsOf activePluggings st2) \<subseteq> fst ` set (a_cartStatus st2)"
      using sortedCartsOf_facts [of st2 activePluggings] p12 by blast
    moreover have "fst ` set (a_cartStatus st2) \<subseteq> set ?K"
      using p12 allocInv_keysD by blast
    ultimately show ?thesis using cK by blast
  qed
  from 1 2 show ?thesis by blast
qed

section \<open>Runs on the example inputs\<close>

text \<open>The definitions that a run on a concrete input unfolds.\<close>

lemmas eval_defs = examplePlate_def pluggedPlate_def exampleConfig_def examplePlugger_def
  allocateCarts_def allocate_def allocPhases12_def truncatePlates_def resetOffline_def
  initCarts_def getCartStatus_def cartStatusCodes_def replaceMsgs_def getCartForReplug_def
  argmax_def sortedCartsOf_def prioritiseCarts_def assignCart_def statusLabelOf_def
  completionOf_def addCartOrder_def cartOrder_def orderedCarts_def argsort_def Let_def

text \<open>
  A run on three carts: plate 200 is plugged in cart 1 and is to be allocated with the
  new plate 100, which is twice in the list; plate 300 is plugged in cart 3 and is not
  to be allocated. The run returns and the hypotheses of the uniqueness theorem hold.
\<close>

theorem allocateCarts_unique_witness:
  "\<exists>pl'. allocateCarts (exampleConfig [1, 2, 3] [])
      [\<lparr>pk = 1, ap_cartridge_number = 1, ap_plate = pluggedPlate 200 1 (1/2)\<rparr>,
       \<lparr>pk = 3, ap_cartridge_number = 3, ap_plate = pluggedPlate 300 3 (1/4)\<rparr>]
      (examplePlugger (exampleConfig [1, 2, 3] []))
      [examplePlate 100, pluggedPlate 200 1 (1/2), examplePlate 100] = Inr pl' \<and>
    carts pl' = [(1, Some (pluggedPlate 200 1 (1/2))), (2, Some (examplePlate 100)),
                 (3, Some (pluggedPlate 300 3 (1/4)))] \<and>
    distinct (map fst (carts pl')) \<and>
    (\<forall>c1 c2 p1 p2. map_of (carts pl') c1 = Some (Some p1) \<and>
       map_of (carts pl') c2 = Some (Some p2) \<and> plate_id p1 = plate_id p2 \<longrightarrow> c1 = c2)"
proof -
  let ?cfg = "exampleConfig [1, 2, 3] []"
  let ?aps = "[\<lparr>pk = 1, ap_cartridge_number = 1, ap_plate = pluggedPlate 200 1 (1/2)\<rparr>,
       \<lparr>pk = 3, ap_cartridge_number = 3, ap_plate = pluggedPlate 300 3 (1/4)\<rparr>]"
  let ?plates = "[examplePlate 100, pluggedPlate 200 1 (1/2), examplePlate 100]"
  have ev: "map_sum id carts (allocateCarts ?cfg ?aps (examplePlugger ?cfg) ?plates) =
      Inr [(1, Some (pluggedPlate 200 1 (1/2))), (2, Some (examplePlate 100)),
           (3, Some (pluggedPlate 300 3 (1/4)))]"
    by (simp add: eval_defs)
  then obtain pl' where run: "allocateCarts ?cfg ?aps (examplePlugger ?cfg) ?plates = Inr pl'"
    by (cases "allocateCarts ?cfg ?aps (examplePlugger ?cfg) ?plates") auto
  with ev have cs: "carts pl' = [(1, Some (pluggedPlate 200 1 (1/2))),
      (2, Some (examplePlate 100)), (3, Some (pluggedPlate 300 3 (1/4)))]"
    by simp
  have init: "carts (examplePlugger ?cfg) = initCarts ?cfg"
    by (simp add: examplePlugger_def)
  have "distinct (map plate_id [examplePlate 100, pluggedPlate 200 1 (1/2)])"
    by (simp add: examplePlate_def pluggedPlate_def)
  then have "inj_on plate_id (set [examplePlate 100, pluggedPlate 200 1 (1/2)])"
    by (simp only: distinct_map)
  moreover have "set ?plates = set [examplePlate 100, pluggedPlate 200 1 (1/2)]"
    by auto
  ultimately have ids: "inj_on plate_id (set ?plates)"
    by (simp only:)
  have plugged: "\<forall>p \<in> set ?plates. \<forall>aP \<in> set ?aps.
        plate_id (ap_plate aP) = plate_id p \<longrightarrow>
        isPlugged p \<and> activeCartNumber p = ap_cartridge_number aP"
    by (simp add: examplePlate_def pluggedPlate_def)
  have once: "\<forall>a \<in> set ?aps. \<forall>b \<in> set ?aps.
        plate_id (ap_plate a) = plate_id (ap_plate b) \<longrightarrow>
        ap_cartridge_number a = ap_cartridge_number b"
    by (simp add: examplePlate_def pluggedPlate_def)
  from allocateCarts_unique [OF init run ids plugged once] run cs show ?thesis by blast
qed

text \<open>
  Two readings of the database that are not consistent. In the first, plate 200 has an
  active plugging in cart 1 and one in cart 2 and no plate is to be allocated: the check
  of the unassigned carts leaves plate 200 in both carts. In the second, plate 100 is to
  be allocated and is not flagged as plugged, though it has an active plugging in
  cart 2: phase 3 gives it the empty cart 1, and the check of the unassigned carts
  leaves it in cart 2 as well.
\<close>

theorem allocateCarts_unique_counterexample:
  "map_sum id carts
     (allocateCarts (exampleConfig [1, 2] [])
        [\<lparr>pk = 1, ap_cartridge_number = 1, ap_plate = pluggedPlate 200 1 (1/2)\<rparr>,
         \<lparr>pk = 2, ap_cartridge_number = 2, ap_plate = pluggedPlate 200 1 (1/2)\<rparr>]
        (examplePlugger (exampleConfig [1, 2] [])) []) =
     Inr [(1, Some (pluggedPlate 200 1 (1/2))), (2, Some (pluggedPlate 200 1 (1/2)))]
   \<and> map_sum id carts
     (allocateCarts (exampleConfig [1, 2] [])
        [\<lparr>pk = 2, ap_cartridge_number = 2,
          ap_plate = (examplePlate 100)\<lparr>completion := 1/2\<rparr>\<rparr>]
        (examplePlugger (exampleConfig [1, 2] [])) [(examplePlate 100)\<lparr>completion := 1/2\<rparr>]) =
     Inr [(1, Some ((examplePlate 100)\<lparr>completion := 1/2\<rparr>)),
          (2, Some ((examplePlate 100)\<lparr>completion := 1/2\<rparr>))]"
  by (simp add: eval_defs)

text \<open>
  Plate 200, plugged in cart 3, is the second of two plates to allocate on three carts:
  it stays in cart 3, and the new plate 100 takes the first empty cart.
\<close>

theorem allocateCarts_keeps_plugged_witness:
  "map_sum id carts
     (allocateCarts (exampleConfig [1, 2, 3] [])
        [\<lparr>pk = 3, ap_cartridge_number = 3, ap_plate = pluggedPlate 200 3 (1/2)\<rparr>]
        (examplePlugger (exampleConfig [1, 2, 3] []))
        [examplePlate 100, pluggedPlate 200 3 (1/2)]) =
     Inr [(1, Some (examplePlate 100)), (2, None), (3, Some (pluggedPlate 200 3 (1/2)))]
   \<and> (case allocateCarts (exampleConfig [1, 2, 3] [])
        [\<lparr>pk = 3, ap_cartridge_number = 3, ap_plate = pluggedPlate 200 3 (1/2)\<rparr>]
        (examplePlugger (exampleConfig [1, 2, 3] []))
        [examplePlate 100, pluggedPlate 200 3 (1/2)] of
         Inl e \<Rightarrow> None
       | Inr pl' \<Rightarrow> map_of (carts pl') (activeCartNumber (pluggedPlate 200 3 (1/2)))) =
      Some (Some (pluggedPlate 200 3 (1/2)))"
proof -
  let ?cfg = "exampleConfig [1, 2, 3] []"
  let ?aps = "[\<lparr>pk = 3, ap_cartridge_number = 3, ap_plate = pluggedPlate 200 3 (1/2)\<rparr>]"
  let ?plates = "[examplePlate 100, pluggedPlate 200 3 (1/2)]"
  have ev: "map_sum id carts (allocateCarts ?cfg ?aps (examplePlugger ?cfg) ?plates) =
     Inr [(1, Some (examplePlate 100)), (2, None), (3, Some (pluggedPlate 200 3 (1/2)))]"
    by (simp add: eval_defs)
  then obtain pl' where run: "allocateCarts ?cfg ?aps (examplePlugger ?cfg) ?plates = Inr pl'"
    by (cases "allocateCarts ?cfg ?aps (examplePlugger ?cfg) ?plates") auto
  have init: "carts (examplePlugger ?cfg) = initCarts ?cfg"
    by (simp add: examplePlugger_def)
  have mem: "pluggedPlate 200 3 (1/2) \<in> set (take (length (carts (examplePlugger ?cfg))) ?plates)"
    by (simp add: examplePlugger_def initCarts_def exampleConfig_def)
  have pl: "isPlugged (pluggedPlate 200 3 (1/2))"
    by (simp add: pluggedPlate_def)
  from allocateCarts_keeps_plugged [OF init run mem pl] run ev show ?thesis by simp
qed

text \<open>
  With one cart and two plates to allocate, the plugged plate 200 is the second plate:
  it is dropped before phase 1, and its cart 1 goes to plate 100.
\<close>

theorem allocateCarts_keeps_plugged_counterexample:
  "pluggedPlate 200 1 (1/2) \<in> set [examplePlate 100, pluggedPlate 200 1 (1/2)]
   \<and> isPlugged (pluggedPlate 200 1 (1/2))
   \<and> activeCartNumber (pluggedPlate 200 1 (1/2)) = 1
   \<and> map_sum id carts
       (allocateCarts (exampleConfig [1] [])
          [\<lparr>pk = 1, ap_cartridge_number = 1, ap_plate = pluggedPlate 200 1 (1/2)\<rparr>]
          (examplePlugger (exampleConfig [1] []))
          [examplePlate 100, pluggedPlate 200 1 (1/2)]) =
       Inr [(1, Some (examplePlate 100))]
   \<and> examplePlate 100 \<noteq> pluggedPlate 200 1 (1/2)"
  by (simp add: eval_defs)

section \<open>Offline carts with an active plugging\<close>

text \<open>
  C3. The claim is that no plate is assigned to an offline cart and that phase 3 does
  not consume one. \<^verbatim>\<open>_initFromDates\<close> leaves the offline carts out of \<^verbatim>\<open>self.carts\<close> and
  phase 2 refuses them, but the loop over the active pluggings at the start of
  \<^verbatim>\<open>allocateCarts\<close> sets \<^verbatim>\<open>self.carts[activePlugging.pk] = None\<close> for an offline cart, which
  makes it a cart to decide. With cart 2 offline and holding a plate that is not MaNGA,
  and cart 1 holding a started MaNGA plate, nothing is allocated in phases 1 and 2, the
  sorted carts are 2, 1, and phase 3 assigns the new plate 100 to the offline cart 2.
  A replug whose last cart is cart 2 is refused that cart by phase 2 and gets the same
  cart from phase 3.
\<close>

theorem allocateCarts_offline_assigned:
  "2 \<in> set (offlineCarts (exampleConfig [1, 2] [2]))
   \<and> map_sum id carts
       (allocateCarts (exampleConfig [1, 2] [2])
          [\<lparr>pk = 1, ap_cartridge_number = 1, ap_plate = pluggedPlate 200 1 (1/2)\<rparr>,
           \<lparr>pk = 2, ap_cartridge_number = 2,
            ap_plate = (pluggedPlate 300 2 0)\<lparr>currentSurveyMode := Some ''APOGEE lead''\<rparr>\<rparr>]
          (examplePlugger (exampleConfig [1, 2] [2])) [examplePlate 100]) =
       Inr [(1, Some (pluggedPlate 200 1 (1/2))), (2, Some (examplePlate 100))]
   \<and> map_sum id (\<lambda>st. (a_allocatedPlates st, map fst (sortedCartsOf
          [\<lparr>pk = 1, ap_cartridge_number = 1, ap_plate = pluggedPlate 200 1 (1/2)\<rparr>,
           \<lparr>pk = 2, ap_cartridge_number = 2,
            ap_plate = (pluggedPlate 300 2 0)\<lparr>currentSurveyMode := Some ''APOGEE lead''\<rparr>\<rparr>] st)))
       (allocPhases12 (exampleConfig [1, 2] [2])
          [\<lparr>pk = 1, ap_cartridge_number = 1, ap_plate = pluggedPlate 200 1 (1/2)\<rparr>,
           \<lparr>pk = 2, ap_cartridge_number = 2,
            ap_plate = (pluggedPlate 300 2 0)\<lparr>currentSurveyMode := Some ''APOGEE lead''\<rparr>\<rparr>]
          (carts (examplePlugger (exampleConfig [1, 2] [2]))) [examplePlate 100]) =
       Inr ([], [2, 1])
   \<and> getCartForReplug ((examplePlate 100)\<lparr>isReplug := True, completionIncompleteSets := 1/2,
          pluggings := [\<lparr>fscan_mjd = 57000, cartridge_number = 2\<rparr>]\<rparr>) = Some 2
   \<and> map_sum id a_allocatedPlates
       (allocPhases12 (exampleConfig [1, 2] [2])
          [\<lparr>pk = 1, ap_cartridge_number = 1, ap_plate = pluggedPlate 200 1 (1/2)\<rparr>,
           \<lparr>pk = 2, ap_cartridge_number = 2,
            ap_plate = (pluggedPlate 300 2 0)\<lparr>currentSurveyMode := Some ''APOGEE lead''\<rparr>\<rparr>]
          (carts (examplePlugger (exampleConfig [1, 2] [2])))
          [(examplePlate 100)\<lparr>isReplug := True, completionIncompleteSets := 1/2,
             pluggings := [\<lparr>fscan_mjd = 57000, cartridge_number = 2\<rparr>]\<rparr>]) = Inr []
   \<and> map_sum id carts
       (allocateCarts (exampleConfig [1, 2] [2])
          [\<lparr>pk = 1, ap_cartridge_number = 1, ap_plate = pluggedPlate 200 1 (1/2)\<rparr>,
           \<lparr>pk = 2, ap_cartridge_number = 2,
            ap_plate = (pluggedPlate 300 2 0)\<lparr>currentSurveyMode := Some ''APOGEE lead''\<rparr>\<rparr>]
          (examplePlugger (exampleConfig [1, 2] [2]))
          [(examplePlate 100)\<lparr>isReplug := True, completionIncompleteSets := 1/2,
             pluggings := [\<lparr>fscan_mjd = 57000, cartridge_number = 2\<rparr>]\<rparr>]) =
       Inr [(1, Some (pluggedPlate 200 1 (1/2))),
            (2, Some ((examplePlate 100)\<lparr>isReplug := True, completionIncompleteSets := 1/2,
               pluggings := [\<lparr>fscan_mjd = 57000, cartridge_number = 2\<rparr>]\<rparr>))]"
  by (simp add: eval_defs)

section \<open>Replugs whose cart is not available\<close>

text \<open>
  C6. The claim is that phase 2 skips a replug whose last cart is offline, or that has
  no plugging, and leaves the plate to phase 3. The source reads
  \<^verbatim>\<open>cartStatus[cartNumber][2]\<close> before the test that would skip: with two MaNGA
  carts, cart 2 offline and no active plugging, a replug whose last plugging (the one
  with the largest \<^verbatim>\<open>fscan_mjd\<close>) was in cart 2 ends the run with \<^verbatim>\<open>KeyError\<close>, and so
  does a replug with no plugging (\<^verbatim>\<open>cartStatus[None]\<close>), though cart 1 is empty and
  undecided: the same plate without the flag \<^verbatim>\<open>isReplug\<close> gets cart 1 in phase 3.
\<close>

theorem allocateCarts_replug_KeyError:
  "getCartForReplug ((examplePlate 100)\<lparr>isReplug := True, completionIncompleteSets := 1/2,
       pluggings := [\<lparr>fscan_mjd = 56990, cartridge_number = 1\<rparr>,
                     \<lparr>fscan_mjd = 57000, cartridge_number = 2\<rparr>]\<rparr>) = Some 2
   \<and> allocateCarts (exampleConfig [1, 2] [2]) [] (examplePlugger (exampleConfig [1, 2] [2]))
       [(examplePlate 100)\<lparr>isReplug := True, completionIncompleteSets := 1/2,
          pluggings := [\<lparr>fscan_mjd = 56990, cartridge_number = 1\<rparr>,
                        \<lparr>fscan_mjd = 57000, cartridge_number = 2\<rparr>]\<rparr>] = Inl KeyError
   \<and> getCartForReplug ((examplePlate 100)\<lparr>isReplug := True,
       completionIncompleteSets := 1/2\<rparr>) = None
   \<and> allocateCarts (exampleConfig [1, 2] []) [] (examplePlugger (exampleConfig [1, 2] []))
       [(examplePlate 100)\<lparr>isReplug := True, completionIncompleteSets := 1/2\<rparr>] = Inl KeyError
   \<and> map_sum id carts
       (allocateCarts (exampleConfig [1, 2] [2]) [] (examplePlugger (exampleConfig [1, 2] [2]))
          [(examplePlate 100)\<lparr>completionIncompleteSets := 1/2,
             pluggings := [\<lparr>fscan_mjd = 56990, cartridge_number = 1\<rparr>,
                           \<lparr>fscan_mjd = 57000, cartridge_number = 2\<rparr>]\<rparr>]) =
       Inr [(1, Some ((examplePlate 100)\<lparr>completionIncompleteSets := 1/2,
             pluggings := [\<lparr>fscan_mjd = 56990, cartridge_number = 1\<rparr>,
                           \<lparr>fscan_mjd = 57000, cartridge_number = 2\<rparr>]\<rparr>))]"
  by (simp add: eval_defs)

section \<open>The completed plates of \<^verbatim>\<open>addCartOrder\<close>\<close>

text \<open>
  C9. The claim is that the carts of the completed plates (completion at least 1, not
  of force priority) come first, then the unused offline carts, then the scheduled
  plates by their new exposures. The source tests \<^verbatim>\<open>getPlateCompletion(useMock=False) > 1\<close>:
  a plate whose completion is exactly 1 is sorted with the scheduled plates. With
  plate 100 (completion 1, three new exposures) in cart 1, plate 200 (completion 0.5,
  one new exposure) in cart 2 and cart 3 offline, the order is 3, 2, 1 and not
  1, 3, 2; with completion 1.1 for plate 100 it is 1, 3, 2.
\<close>

theorem addCartOrder_completion_one:
  "map_sum id cart_order
     (addCartOrder (exampleConfig [1, 2, 3] [3]) Scheduled
        ((examplePlugger (exampleConfig [1, 2, 3] [3]))
           \<lparr>carts := [(1, Some ((examplePlate 100)\<lparr>completion := 1, completionNoMock := 1\<rparr>)),
                      (2, Some ((examplePlate 200)\<lparr>completionNoMock := 1/2\<rparr>))],
            nNewExposures := Some [(100, 3), (200, 1)]\<rparr>)) = Inr (Some [3, 2, 1])
   \<and> map_sum id cart_order
     (addCartOrder (exampleConfig [1, 2, 3] [3]) Scheduled
        ((examplePlugger (exampleConfig [1, 2, 3] [3]))
           \<lparr>carts := [(1, Some ((examplePlate 100)\<lparr>completion := 1, completionNoMock := 11/10\<rparr>)),
                      (2, Some ((examplePlate 200)\<lparr>completionNoMock := 1/2\<rparr>))],
            nNewExposures := Some [(100, 3), (200, 1)]\<rparr>)) = Inr (Some [1, 3, 2])"
  by (simp add: eval_defs)

section \<open>The plates of force priority in \<^verbatim>\<open>selectPlates\<close>\<close>

text \<open>
  C8, as amended. Every plate of the pool whose priority equals the force priority is
  in the list that \<^verbatim>\<open>selectPlates\<close> returns, whatever the lowest priority to plug and
  whether the plate is complete or not.
\<close>

theorem selectPlates_keeps_forced:
  "plate \<in> set plates \<Longrightarrow> priority plate = forcePlugPriority cfg \<Longrightarrow>
   plate \<in> set (selectPlates cfg plates)"
  by (simp add: selectPlates_def Let_def)

text \<open>A complete plate of priority 10, the force priority, is selected.\<close>

theorem selectPlates_keeps_forced_witness:
  "(examplePlate 101)\<lparr>priority := 10, isComplete := True\<rparr> \<in>
     set (selectPlates (exampleConfig [1, 2] [])
       [(examplePlate 100)\<lparr>priority := 1\<rparr>,
        (examplePlate 101)\<lparr>priority := 10, isComplete := True\<rparr>])"
  using selectPlates_keeps_forced
    [of "(examplePlate 101)\<lparr>priority := 10, isComplete := True\<rparr>"
        "[(examplePlate 100)\<lparr>priority := 1\<rparr>,
          (examplePlate 101)\<lparr>priority := 10, isComplete := True\<rparr>]"
        "exampleConfig [1, 2] []"]
  by (simp add: exampleConfig_def examplePlate_def)

text \<open>
  A complete plate of priority 11, above the force priority 10, that is not plugged is
  not selected: the first loop tests the priority for equality, and the second loop
  drops the complete plates.
\<close>

theorem selectPlates_keeps_forced_counterexample:
  "forcePlugPriority (exampleConfig [1, 2] []) \<le>
     priority ((examplePlate 100)\<lparr>priority := 11, isComplete := True\<rparr>)
   \<and> selectPlates (exampleConfig [1, 2] [])
       [(examplePlate 100)\<lparr>priority := 11, isComplete := True\<rparr>, examplePlate 101] =
     [examplePlate 101]"
  by (simp add: selectPlates_def exampleConfig_def examplePlate_def)

section \<open>The plugger without dates and the output\<close>

lemma fold_plugged:
  "(\<forall>c v. (c, v) \<in> set acc \<longrightarrow> (\<exists>q. v = Some q \<and> q \<in> S \<and> \<not> isComplete q)) \<Longrightarrow>
   set ps \<subseteq> S \<Longrightarrow>
   (\<forall>c v. (c, v) \<in> set (fold (\<lambda>plate cs. if \<not> isComplete plate
                                   then AList.update (activeCartNumber plate) (Some plate) cs
                                   else cs) ps acc) \<longrightarrow>
      (\<exists>q. v = Some q \<and> q \<in> S \<and> \<not> isComplete q))"
proof (induction ps arbitrary: acc)
  case Nil
  then show ?case by simp
next
  case (Cons p ps)
  have sub: "set ps \<subseteq> S" and pS: "p \<in> S" using Cons.prems(2) by auto
  show ?case
  proof (cases "isComplete p")
    case True
    with Cons.IH [OF Cons.prems(1) sub] show ?thesis by simp
  next
    case False
    have "set (AList.update (activeCartNumber p) (Some p) acc) \<subseteq>
        set acc \<union> {(activeCartNumber p, Some p)}"
      by (induction acc) auto
    with Cons.prems(1) False pS
    have "\<forall>c v. (c, v) \<in> set (AList.update (activeCartNumber p) (Some p) acc) \<longrightarrow>
        (\<exists>q. v = Some q \<and> q \<in> S \<and> \<not> isComplete q)"
      by blast
    from Cons.IH [OF this sub] False show ?thesis by simp
  qed
qed

lemma initNoManga_carts:
  "(c, v) \<in> set (carts (initNoManga cfg ev)) \<Longrightarrow>
   \<exists>q. v = Some q \<and> q \<in> set (getPlugged ev) \<and> \<not> isComplete q"
  using fold_plugged [of "[]" "set (getPlugged ev)" "getPlugged ev"]
  by (simp add: initNoManga_def initNoMangaCarts_def)

lemma initNoManga_fields:
  "startDate (initNoManga cfg ev) = None" "endDate (initNoManga cfg ev) = None"
  "cart_order (initNoManga cfg ev) \<noteq> None"
  by (simp_all add: initNoManga_def initNoMangaCarts_def)

text \<open>The call of \<^verbatim>\<open>addCartOrder\<close> in \<^verbatim>\<open>_initNoManga\<close> returns, with that plugger.\<close>

lemma addCartOrder_initNoManga:
  "addCartOrder cfg Completion (initNoMangaCarts ev) = Inr (initNoManga cfg ev)"
  by (simp add: addCartOrder_def initNoManga_def initNoMangaCarts_def)

text \<open>
  C10. \<^verbatim>\<open>Plugger(startDate=0., endDate=0.)\<close> is \<^verbatim>\<open>Plugger(startDate=None, endDate=None)\<close>:
  it does not raise, it is the plugger of \<^verbatim>\<open>_initNoManga\<close>, whose dates are \<^verbatim>\<open>None\<close> and
  whose carts hold plugged plates that are not complete, and \<^verbatim>\<open>getASOutput\<close> on it
  reports these carts as they are, without a call of \<^verbatim>\<open>schedule\<close>.
\<close>

theorem Plugger_init_zero_dates:
  "Plugger_init cfg ev (Some 0) (Some 0) = Plugger_init cfg ev None None
   \<and> Plugger_init cfg ev (Some 0) (Some 0) = Inr (initNoManga cfg ev)
   \<and> startDate (initNoManga cfg ev) = None \<and> endDate (initNoManga cfg ev) = None
   \<and> (\<forall>c v. (c, v) \<in> set (carts (initNoManga cfg ev)) \<longrightarrow>
        (\<exists>q. v = Some q \<and> q \<in> set (getPlugged ev) \<and> \<not> isComplete q))
   \<and> map_sum id out_carts (getASOutput cfg ev (initNoManga cfg ev)) =
        Inr (map (\<lambda>(key, v). (key, map_option plate_id v)) (carts (initNoManga cfg ev)))"
proof -
  have 1: "Plugger_init cfg ev (Some 0) (Some 0) = Inr (initNoManga cfg ev)"
    by (simp add: Plugger_init_def)
  have 2: "Plugger_init cfg ev None None = Inr (initNoManga cfg ev)"
    by (simp add: Plugger_init_def)
  have 3: "map_sum id out_carts (getASOutput cfg ev (initNoManga cfg ev)) =
        Inr (map (\<lambda>(key, v). (key, map_option plate_id v)) (carts (initNoManga cfg ev)))"
    using initNoManga_fields [of cfg ev]
    by (cases "cart_order (initNoManga cfg ev)") (simp_all add: getASOutput_def Let_def)
  show ?thesis
    using 1 2 3 initNoManga_fields(1,2) [of cfg ev] initNoManga_carts [of _ _ cfg ev]
    by (simp only:) blast
qed

text \<open>
  With plate 200 plugged in cart 2 and the complete plate 300 plugged in cart 1, both
  constructions give the plugger whose carts hold plate 200 only.
\<close>

theorem Plugger_init_zero_dates_witness:
  "Plugger_init (exampleConfig [1, 2] [])
     ((exampleEnv [])\<lparr>getPlugged := [pluggedPlate 200 2 (1/2),
        (pluggedPlate 300 1 1)\<lparr>isComplete := True\<rparr>]\<rparr>) (Some 0) (Some 0) =
   Plugger_init (exampleConfig [1, 2] [])
     ((exampleEnv [])\<lparr>getPlugged := [pluggedPlate 200 2 (1/2),
        (pluggedPlate 300 1 1)\<lparr>isComplete := True\<rparr>]\<rparr>) None None
   \<and> map_sum id carts (Plugger_init (exampleConfig [1, 2] [])
     ((exampleEnv [])\<lparr>getPlugged := [pluggedPlate 200 2 (1/2),
        (pluggedPlate 300 1 1)\<lparr>isComplete := True\<rparr>]\<rparr>) (Some 0) (Some 0)) =
     Inr [(2, Some (pluggedPlate 200 2 (1/2)))]"
proof -
  let ?cfg = "exampleConfig [1, 2] []"
  let ?ev = "(exampleEnv [])\<lparr>getPlugged := [pluggedPlate 200 2 (1/2),
        (pluggedPlate 300 1 1)\<lparr>isComplete := True\<rparr>]\<rparr>"
  have c: "carts (initNoManga ?cfg ?ev) = [(2, Some (pluggedPlate 200 2 (1/2)))]"
    by (simp add: initNoManga_def initNoMangaCarts_def exampleEnv_def pluggedPlate_def
        examplePlate_def)
  from Plugger_init_zero_dates [of ?cfg ?ev]
  have e1: "Plugger_init ?cfg ?ev (Some 0) (Some 0) = Plugger_init ?cfg ?ev None None"
    and e2: "Plugger_init ?cfg ?ev (Some 0) (Some 0) = Inr (initNoManga ?cfg ?ev)"
    by blast+
  have "map_sum id carts (Plugger_init ?cfg ?ev (Some 0) (Some 0)) =
      Inr [(2, Some (pluggedPlate 200 2 (1/2)))]"
    by (simp only: e2 c map_sum.simps)
  with e1 show ?thesis by blast
qed

text \<open>The output of \<^verbatim>\<open>getASOutput\<close>.\<close>

lemma Plugger_init_modes:
  assumes "Plugger_init cfg ev sd ed = Inr pl"
  shows "(startDate pl \<noteq> None \<and> endDate pl \<noteq> None) \<or> pl = initNoManga cfg ev"
  using assms
  by (auto simp: Plugger_init_def Let_def initFromDates_def
      split: if_splits option.splits prod.splits)

lemma entries_assigned:
  "map (\<lambda>(key, v). (key, map_option plate_id v)) (filter (\<lambda>(key, v). v \<noteq> None) cs) =
   [(c, Some (plate_id p)). (c, Some p) \<leftarrow> cs]"
  by (induction cs) (auto split: option.splits)

lemma filter_all_Some: "None \<notin> snd ` set cs \<Longrightarrow> filter (\<lambda>(key, v). v \<noteq> None) cs = cs"
  by (induction cs) auto

lemma schedule_cleanUp:
  assumes "schedule cfg ev pl = Inr pl2"
  shows "\<exists>pl1. scheduleAllocate cfg ev pl = Inr pl1 \<and> pl2 = cleanUp pl1"
  using assms by (auto simp: schedule_def split: sum.splits)

text \<open>
  C7, as amended. The mapping that \<^verbatim>\<open>getASOutput\<close> returns has an entry for exactly the
  carts that hold a plate in the final allocation, in the order of \<^verbatim>\<open>self.carts\<close>, each
  mapped to the \<^verbatim>\<open>plate_id\<close> of its plate and never to none (\<^verbatim>\<open>_cleanUp\<close> has removed the
  carts without a plate), in addition to the key \<^verbatim>\<open>'cart_order'\<close>: the APOGEE carts in
  reverse, the MaNGA carts that are not in the order of \<^verbatim>\<open>addCartOrder\<close>, then that
  order, so that every MaNGA cart is in the list. The final allocation is that of the
  call of \<^verbatim>\<open>allocateCarts\<close> in \<^verbatim>\<open>schedule\<close> when the plugger has its dates, and the carts of
  the plugger itself otherwise.
\<close>

theorem getASOutput_entries:
  assumes init: "Plugger_init cfg ev startDate0 endDate0 = Inr pl"
    and out: "getASOutput cfg ev pl = Inr out"
  shows "\<exists>pl' order.
     (if startDate pl \<noteq> None \<and> endDate pl \<noteq> None
      then scheduleAllocate cfg ev pl = Inr pl' else pl' = pl) \<and>
     out_carts out = [(c, Some (plate_id p)). (c, Some p) \<leftarrow> carts pl'] \<and>
     cart_order pl' = Some order \<and>
     out_cart_order out =
       rev (apogeeCarts cfg) @ filter (\<lambda>c. c \<notin> set order) (mangaCarts cfg) @ order \<and>
     set (mangaCarts cfg) \<subseteq> set (out_cart_order out)"
proof (cases "startDate pl \<noteq> None \<and> endDate pl \<noteq> None")
  case True
  with out obtain pl2 where s: "schedule cfg ev pl = Inr pl2"
    by (cases "schedule cfg ev pl") (auto simp: getASOutput_def)
  from schedule_cleanUp [OF s] obtain pl1
    where a: "scheduleAllocate cfg ev pl = Inr pl1" and c: "pl2 = cleanUp pl1" by blast
  from out True s obtain order where o: "cart_order pl2 = Some order"
    by (cases "cart_order pl2") (auto simp: getASOutput_def)
  from out True s o have oc: "out_carts out =
      map (\<lambda>(key, v). (key, map_option plate_id v)) (carts pl2)"
    and oo: "out_cart_order out =
      rev (apogeeCarts cfg) @ filter (\<lambda>c. c \<notin> set order) (mangaCarts cfg) @ order"
    by (auto simp: getASOutput_def Let_def)
  have cf: "carts pl2 = filter (\<lambda>(key, v). v \<noteq> None) (carts pl1)"
    by (simp add: c cleanUp_def)
  have 1: "out_carts out = [(c, Some (plate_id p)). (c, Some p) \<leftarrow> carts pl1]"
    unfolding oc cf by (rule entries_assigned)
  have 2: "cart_order pl1 = Some order"
    using o by (simp add: c cleanUp_def)
  have 3: "set (mangaCarts cfg) \<subseteq> set (out_cart_order out)"
    by (auto simp: oo)
  from True a 1 2 oo 3 show ?thesis by auto
next
  case False
  with Plugger_init_modes [OF init] have pl: "pl = initNoManga cfg ev" by blast
  then have "None \<notin> snd ` set (carts pl)"
    using initNoManga_carts [of _ None cfg ev] by force
  then have f: "filter (\<lambda>(key, v). v \<noteq> None) (carts pl) = carts pl"
    by (rule filter_all_Some)
  from out False obtain order where o: "cart_order pl = Some order"
    by (cases "cart_order pl") (auto simp: getASOutput_def)
  from out False o have oc: "out_carts out =
      map (\<lambda>(key, v). (key, map_option plate_id v)) (carts pl)"
    and oo: "out_cart_order out =
      rev (apogeeCarts cfg) @ filter (\<lambda>c. c \<notin> set order) (mangaCarts cfg) @ order"
    by (auto simp: getASOutput_def Let_def)
  have 1: "out_carts out = [(c, Some (plate_id p)). (c, Some p) \<leftarrow> carts pl]"
    using entries_assigned [of "carts pl"] by (simp only: oc f)
  have 3: "set (mangaCarts cfg) \<subseteq> set (out_cart_order out)"
    by (auto simp: oo)
  from False 1 o oo 3 show ?thesis by auto
qed

text \<open>The definitions that a run of the plugger unfolds.\<close>

lemmas plugger_defs = Plugger_init_def initFromDates_def selectPlates_def getASOutput_def
  schedule_def scheduleAllocate_def scheduleForced_def removeForced.simps cleanUp_def
  truthy_def exampleEnv_def

text \<open>
  With the MaNGA carts 1 and 2 and one plate scheduled, the output has the entry of
  cart 1 only: cart 2, without a plate, has none.
\<close>

theorem getASOutput_entries_counterexample:
  "2 \<in> set (mangaCarts (exampleConfig [1, 2] []))
   \<and> (case Plugger_init (exampleConfig [1, 2] []) (exampleEnv [examplePlate 100])
            (Some 2457000) (Some 2457001) of
        Inl e \<Rightarrow> Inl e
      | Inr pl \<Rightarrow> map_sum id (\<lambda>out. (out_carts out, out_cart_order out))
          (getASOutput (exampleConfig [1, 2] []) (exampleEnv [examplePlate 100]) pl)) =
     Inr ([(1, Some 100)], [9, 8, 7, 2, 1])
   \<and> 2 \<notin> fst ` set [(1 :: int, Some (100 :: int))]"
  by (simp add: plugger_defs eval_defs)

text \<open>
  The same run: the allocation holds plate 100 in cart 1 and nothing in cart 2, and the
  output has the entry of cart 1, with the identifier 100.
\<close>

theorem getASOutput_entries_witness:
  "\<exists>pl out pl'. Plugger_init (exampleConfig [1, 2] []) (exampleEnv [examplePlate 100])
        (Some 2457000) (Some 2457001) = Inr pl
     \<and> getASOutput (exampleConfig [1, 2] []) (exampleEnv [examplePlate 100]) pl = Inr out
     \<and> scheduleAllocate (exampleConfig [1, 2] []) (exampleEnv [examplePlate 100]) pl = Inr pl'
     \<and> carts pl' = [(1, Some (examplePlate 100)), (2, None)]
     \<and> out_carts out = [(1, Some 100)]
     \<and> out_cart_order out = [9, 8, 7, 2, 1]"
proof -
  let ?cfg = "exampleConfig [1, 2] []"
  let ?ev = "exampleEnv [examplePlate 100]"
  have "\<exists>pl. Plugger_init ?cfg ?ev (Some 2457000) (Some 2457001) = Inr pl"
    by (simp add: Plugger_init_def initFromDates_def truthy_def)
  then obtain pl where pl: "Plugger_init ?cfg ?ev (Some 2457000) (Some 2457001) = Inr pl" ..
  then have d: "startDate pl \<noteq> None \<and> endDate pl \<noteq> None"
    by (auto simp: Plugger_init_def initFromDates_def truthy_def)
  from pl have "\<exists>out. getASOutput ?cfg ?ev pl = Inr out"
    by (auto simp: plugger_defs eval_defs)
  then obtain out where out: "getASOutput ?cfg ?ev pl = Inr out" ..
  from getASOutput_entries [OF pl out] d obtain pl' order
    where a: "scheduleAllocate ?cfg ?ev pl = Inr pl'"
      and oc: "out_carts out = [(c, Some (plate_id p)). (c, Some p) \<leftarrow> carts pl']"
      and o: "cart_order pl' = Some order"
      and oo: "out_cart_order out =
        rev (apogeeCarts ?cfg) @ filter (\<lambda>c. c \<notin> set order) (mangaCarts ?cfg) @ order"
    by auto
  from pl a have c: "carts pl' = [(1, Some (examplePlate 100)), (2, None)]"
    by (auto simp: plugger_defs eval_defs)
  from pl a o have "order = [1]"
    by (auto simp: plugger_defs eval_defs)
  with oo have "out_cart_order out = [9, 8, 7, 2, 1]"
    by (simp add: exampleConfig_def)
  moreover from oc c have "out_carts out = [(1, Some 100)]"
    by (simp add: examplePlate_def)
  ultimately show ?thesis using pl out a c by blast
qed

end
